theory Spec2Isabelle
  imports Main "HOL-Library.Multiset"
begin

section \<open>The persisted table\<close>

text \<open>
  The application keeps one SQLite table, created by \<^verbatim>\<open>init_db\<close>:
  \<^verbatim>\<open>
  CREATE TABLE IF NOT EXISTS entries (
      id INTEGER PRIMARY KEY AUTOINCREMENT,
      name TEXT NOT NULL,
      email TEXT NOT NULL,
      age INTEGER,
      notes TEXT
  )
  \<close>
  A row is a record with one field per column. The two nullable columns are options;
  the two \<^verbatim>\<open>NOT NULL\<close> columns are plain strings (the column \<^verbatim>\<open>notes\<close> is the field \<open>notes'\<close>).
\<close>

record entry =
  row_id :: int
  name :: string
  email :: string
  age :: "int option"
  notes' :: "string option"

text \<open>
  A table declared \<^verbatim>\<open>AUTOINCREMENT\<close> comes with a counter, kept by SQLite in
  \<^verbatim>\<open>sqlite_sequence\<close>: the largest row id the table has ever held. It is 0 until the
  first insert. The rows are kept in the order they were inserted.
\<close>

record table =
  rows :: "entry list"
  seq :: int

text \<open>
  The data file \<^verbatim>\<open>data.db\<close> is in one of three states: it cannot be opened or
  created, it holds no \<^verbatim>\<open>entries\<close> table (a missing file is created empty by
  \<^verbatim>\<open>sqlite3.connect\<close>), or it holds the table.
\<close>

datatype store = Unopenable | Blank | Entries table

text \<open>
  The exceptions the statements of the gateway can raise:
  \<^item> \<open>UnableToOpen\<close>: \<^verbatim>\<open>sqlite3.OperationalError\<close>, unable to open database file;
  \<^item> \<open>NoSuchTable\<close>: \<^verbatim>\<open>sqlite3.OperationalError\<close>, no such table: entries;
  \<^item> \<open>DatabaseFull\<close>: \<^verbatim>\<open>sqlite3.OperationalError\<close>, database or disk is full
    (\<^verbatim>\<open>SQLITE_FULL\<close>, which an \<^verbatim>\<open>AUTOINCREMENT\<close> table gives once the largest row id
    has been used);
  \<^item> \<open>IntTooLarge\<close>: \<^verbatim>\<open>OverflowError\<close>, Python int too large to convert to SQLite
    INTEGER, raised while a parameter is bound;
  \<^item> \<open>ValueOutOfBounds\<close>: the exception of \<^verbatim>\<open>st.number_input\<close> for a default value
    outside its bounds.
  The parameters are typed \<^verbatim>\<open>str\<close> in the source, so a \<^verbatim>\<open>NOT NULL\<close> violation has no
  branch here; a write that fails halfway (a full disk, a locked file) is not modelled.
  What becomes of the file between two calls of a run is the world of the page on a
  shared file, below.
\<close>

datatype exn = UnableToOpen | NoSuchTable | DatabaseFull | IntTooLarge | ValueOutOfBounds

definition MAX_ROWID :: int where
  "MAX_ROWID = 9223372036854775807"

definition in_int64 :: "int \<Rightarrow> bool" where
  "in_int64 i = (- MAX_ROWID - 1 \<le> i \<and> i \<le> MAX_ROWID)"

fun bindable :: "int option \<Rightarrow> bool" where
  "bindable None = True"
| "bindable (Some a) = in_int64 a"

section \<open>Database helpers\<close>

text \<open>
  \<^verbatim>\<open>get_connection\<close> opens the file; the connection gives the statements the table,
  when there is one. The pragma it runs has no effect on a schema without foreign keys.
\<close>

fun get_connection :: "store \<Rightarrow> exn + table option" where
  "get_connection Unopenable = Inl UnableToOpen"
| "get_connection Blank = Inr None"
| "get_connection (Entries t) = Inr (Some t)"

text \<open>\<^verbatim>\<open>CREATE TABLE IF NOT EXISTS\<close>: a new, empty table when there is none.\<close>

definition init_db :: "store \<Rightarrow> exn + store" where
  "init_db s =
     (case get_connection s of
        Inl e \<Rightarrow> Inl e
      | Inr None \<Rightarrow> Inr (Entries \<lparr>rows = [], seq = 0\<rparr>)
      | Inr (Some t) \<Rightarrow> Inr (Entries t))"

text \<open>The largest row id of the table, if it has a row.\<close>

fun max_rowid :: "entry list \<Rightarrow> int option" where
  "max_rowid [] = None"
| "max_rowid (r # rs) =
     Some (case max_rowid rs of None \<Rightarrow> row_id r | Some m \<Rightarrow> max (row_id r) m)"

text \<open>
  The row id SQLite chooses for an insert that names none, on an \<^verbatim>\<open>AUTOINCREMENT\<close>
  table: one more than the largest row id in the table (1 when it is empty), raised to
  one more than the counter; no id at all once the largest possible id is in the table
  or in the counter.
\<close>

definition new_rowid :: "table \<Rightarrow> int option" where
  "new_rowid t =
     (case max_rowid (rows t) of
        None \<Rightarrow> if seq t = MAX_ROWID then None else Some (max 1 (seq t + 1))
      | Some m \<Rightarrow>
          if MAX_ROWID \<le> m \<or> seq t = MAX_ROWID then None
          else Some (max (m + 1) (seq t + 1)))"

text \<open>
  \<^verbatim>\<open>
  def insert_entry(name, email, age, notes) -> int:
      with get_connection() as conn:
          cur = conn.execute(
              "INSERT INTO entries (name, email, age, notes) VALUES (?, ?, ?, ?)",
              (name, email, age, notes))
          return cur.lastrowid
  \<close>
  The statement is prepared (the table must exist), the parameters are bound (an integer
  must fit 64 bits), the row is written with its new id, and the counter follows.
\<close>

definition insert_entry ::
  "string \<Rightarrow> string \<Rightarrow> int option \<Rightarrow> string \<Rightarrow> store \<Rightarrow> exn + (int \<times> store)" where
  "insert_entry nm em ag nt s =
     (case get_connection s of
        Inl e \<Rightarrow> Inl e
      | Inr None \<Rightarrow> Inl NoSuchTable
      | Inr (Some t) \<Rightarrow>
          if \<not> bindable ag then Inl IntTooLarge
          else (case new_rowid t of
                  None \<Rightarrow> Inl DatabaseFull
                | Some v \<Rightarrow>
                    Inr (v, Entries \<lparr>rows = rows t @
                           [\<lparr>row_id = v, name = nm, email = em, age = ag, notes' = Some nt\<rparr>],
                         seq = v\<rparr>)))"

text \<open>\<^verbatim>\<open>SELECT * FROM entries ORDER BY id DESC\<close>, all rows fetched.\<close>

definition view_all :: "store \<Rightarrow> exn + entry list" where
  "view_all s =
     (case get_connection s of
        Inl e \<Rightarrow> Inl e
      | Inr None \<Rightarrow> Inl NoSuchTable
      | Inr (Some t) \<Rightarrow> Inr (rev (sort_key row_id (rows t))))"

text \<open>
  \<^verbatim>\<open>SELECT * FROM entries WHERE id = ?\<close>, and \<^verbatim>\<open>fetchone\<close>: the first row of the
  result, or \<^verbatim>\<open>None\<close>.
\<close>

definition get_entry :: "int \<Rightarrow> store \<Rightarrow> exn + entry option" where
  "get_entry i s =
     (case get_connection s of
        Inl e \<Rightarrow> Inl e
      | Inr None \<Rightarrow> Inl NoSuchTable
      | Inr (Some t) \<Rightarrow>
          if \<not> in_int64 i then Inl IntTooLarge
          else Inr (find (\<lambda>r. row_id r = i) (rows t)))"

text \<open>
  \<^verbatim>\<open>UPDATE entries SET name = ?, email = ?, age = ?, notes = ? WHERE id = ?\<close>; the result
  is \<^verbatim>\<open>cur.rowcount > 0\<close>, and SQLite counts every row the \<^verbatim>\<open>WHERE\<close> clause selects.
\<close>

definition update_entry ::
  "int \<Rightarrow> string \<Rightarrow> string \<Rightarrow> int option \<Rightarrow> string \<Rightarrow> store \<Rightarrow> exn + (bool \<times> store)" where
  "update_entry i nm em ag nt s =
     (case get_connection s of
        Inl e \<Rightarrow> Inl e
      | Inr None \<Rightarrow> Inl NoSuchTable
      | Inr (Some t) \<Rightarrow>
          if \<not> bindable ag \<or> \<not> in_int64 i then Inl IntTooLarge
          else Inr (0 < length (filter (\<lambda>r. row_id r = i) (rows t)),
                    Entries (t\<lparr>rows :=
                      map (\<lambda>r. if row_id r = i
                                then r\<lparr>name := nm, email := em, age := ag, notes' := Some nt\<rparr>
                                else r) (rows t)\<rparr>)))"

text \<open>\<^verbatim>\<open>DELETE FROM entries WHERE id = ?\<close>; the result is \<^verbatim>\<open>cur.rowcount > 0\<close>.\<close>

definition delete_entry :: "int \<Rightarrow> store \<Rightarrow> exn + (bool \<times> store)" where
  "delete_entry i s =
     (case get_connection s of
        Inl e \<Rightarrow> Inl e
      | Inr None \<Rightarrow> Inl NoSuchTable
      | Inr (Some t) \<Rightarrow>
          if \<not> in_int64 i then Inl IntTooLarge
          else Inr (0 < length (filter (\<lambda>r. row_id r = i) (rows t)),
                    Entries (t\<lparr>rows := filter (\<lambda>r. row_id r \<noteq> i) (rows t)\<rparr>)))"

section \<open>Tables SQLite can hold\<close>

text \<open>
  What SQLite keeps true of every table with this schema: integers are 64-bit, the
  primary key is unique, and the counter of an \<^verbatim>\<open>AUTOINCREMENT\<close> table is never below a
  row id of the table.
\<close>

definition wf_table :: "table \<Rightarrow> bool" where
  "wf_table t =
     (in_int64 (seq t) \<and>
      (\<forall>r \<in> set (rows t). in_int64 (row_id r) \<and> row_id r \<le> seq t \<and> bindable (age r)) \<and>
      distinct (map row_id (rows t)))"

text \<open>The table has room for one more row: the largest row id has not been used.\<close>

definition room :: "table \<Rightarrow> bool" where
  "room t = (seq t < MAX_ROWID \<and> (\<forall>r \<in> set (rows t). row_id r < MAX_ROWID))"

text \<open>The rows of a table whose id is not \<open>i\<close>, in their order.\<close>

definition others :: "int \<Rightarrow> table \<Rightarrow> entry list" where
  "others i t = filter (\<lambda>r. row_id r \<noteq> i) (rows t)"

fun table_rows :: "store \<Rightarrow> entry list" where
  "table_rows (Entries t) = rows t"
| "table_rows s = []"

fun wf_store :: "store \<Rightarrow> bool" where
  "wf_store (Entries t) = wf_table t"
| "wf_store s = True"

section \<open>Sequences of gateway calls\<close>

text \<open>
  A caller of the gateway makes one call after another. Each call is its own transaction
  (\<^verbatim>\<open>with get_connection() as conn\<close> commits on return and rolls back on an exception),
  so a call that raises leaves the store as it was.
\<close>

datatype call =
    Initialize
  | Create string string "int option" string
  | Update int string string "int option" string
  | Delete int

fun apply_call :: "call \<Rightarrow> store \<Rightarrow> store" where
  "apply_call Initialize s = (case init_db s of Inl e \<Rightarrow> s | Inr s' \<Rightarrow> s')"
| "apply_call (Create nm em ag nt) s =
     (case insert_entry nm em ag nt s of Inl e \<Rightarrow> s | Inr (v, s') \<Rightarrow> s')"
| "apply_call (Update i nm em ag nt) s =
     (case update_entry i nm em ag nt s of Inl e \<Rightarrow> s | Inr (b, s') \<Rightarrow> s')"
| "apply_call (Delete i) s =
     (case delete_entry i s of Inl e \<Rightarrow> s | Inr (b, s') \<Rightarrow> s')"

definition run :: "call list \<Rightarrow> store \<Rightarrow> store" where
  "run cs s = fold apply_call cs s"

section \<open>The Streamlit page\<close>

text \<open>
  \<^verbatim>\<open>main\<close> is run once for every action of the user. What the user has done to the
  widgets of the page is the input of a run: a text or number field left alone is
  \<open>None\<close> and shows the value the script gives it; a select box holds the position of
  the chosen option.
\<close>

record user =
  add_name :: string
  add_email :: string
  add_age :: "int option"
  add_notes :: string
  add_submitted :: bool
  edit_choice :: nat
  edit_name :: "string option"
  edit_email :: "string option"
  edit_age :: "int option"
  edit_notes :: "string option"
  edit_submitted :: bool
  del_choice :: nat
  del_confirm :: bool
  del_clicked :: bool

text \<open>
  What a run shows, in the order of the page:
  \<^item> \<open>EntryAdded i\<close>: \<^verbatim>\<open>st.success(f"Entry added with id {new_id}")\<close>;
  \<^item> \<open>RequiredFields\<close>: \<^verbatim>\<open>st.error("Name and Email are required.")\<close>;
  \<^item> \<open>ShowRecords rs\<close>: \<^verbatim>\<open>st.dataframe(df, ...)\<close>;
  \<^item> \<open>NoRecords\<close>: \<^verbatim>\<open>st.info("No records found. Add some via the form above.")\<close>;
  \<^item> \<open>RecordUpdated\<close>: \<^verbatim>\<open>st.success("Record updated successfully.")\<close>;
  \<^item> \<open>UpdateFailed\<close>: \<^verbatim>\<open>st.error("Failed to update record. It may have been removed.")\<close>;
  \<^item> \<open>RecordNotFound\<close>: \<^verbatim>\<open>st.warning("Selected record not found.")\<close>;
  \<^item> \<open>NothingToUpdate\<close>: \<^verbatim>\<open>st.info("No records to update.")\<close>;
  \<^item> \<open>ConfirmFirst\<close>: \<^verbatim>\<open>st.warning("Please check 'Confirm delete' before pressing Delete.")\<close>;
  \<^item> \<open>RecordDeleted\<close>: \<^verbatim>\<open>st.success("Record deleted successfully")\<close>;
  \<^item> \<open>DeleteFailed\<close>: \<^verbatim>\<open>st.error("Failed to delete. It might already be removed.")\<close>;
  \<^item> \<open>NothingToDelete\<close>: \<^verbatim>\<open>st.info("No records to delete.")\<close>.
\<close>

datatype message =
    EntryAdded int
  | RequiredFields
  | ShowRecords "entry list"
  | NoRecords
  | RecordUpdated
  | UpdateFailed
  | RecordNotFound
  | NothingToUpdate
  | ConfirmFirst
  | RecordDeleted
  | DeleteFailed
  | NothingToDelete

text \<open>
  \<^verbatim>\<open>str.strip()\<close>, on strings of characters below 256: the white space of
  \<^verbatim>\<open>str.isspace\<close> there is the characters 9 to 13 and 28 to 32, the next-line
  character 133 (U+0085) and the no-break space 160 (U+00A0).
\<close>

definition isspace :: "char \<Rightarrow> bool" where
  "isspace c =
     (let n = (of_char c :: nat)
      in (9 \<le> n \<and> n \<le> 13) \<or> (28 \<le> n \<and> n \<le> 32) \<or> n = 133 \<or> n = 160)"

definition strip :: "string \<Rightarrow> string" where
  "strip s = rev (dropWhile isspace (rev (dropWhile isspace s)))"

text \<open>
  The widgets. \<^verbatim>\<open>st.text_input\<close> and \<^verbatim>\<open>st.text_area\<close> give what the user typed, or the
  value of the script. \<^verbatim>\<open>st.number_input\<close> raises when the value of the script is
  outside its bounds, and gives only numbers within them: a number typed outside the
  bounds is not taken. \<^verbatim>\<open>st.selectbox\<close> gives one of its options, the first one unless
  the user chose another; the page calls it only with options.
\<close>

definition text_input :: "string \<Rightarrow> string option \<Rightarrow> string" where
  "text_input val typed = (case typed of None \<Rightarrow> val | Some x \<Rightarrow> x)"

definition number_input :: "int \<Rightarrow> int \<Rightarrow> int \<Rightarrow> int option \<Rightarrow> exn + int" where
  "number_input min_value max_value val typed =
     (if val < min_value \<or> max_value < val then Inl ValueOutOfBounds
      else Inr (case typed of
                  None \<Rightarrow> val
                | Some x \<Rightarrow> if min_value \<le> x \<and> x \<le> max_value then x else val))"

definition selectbox :: "'a list \<Rightarrow> nat \<Rightarrow> 'a" where
  "selectbox options choice = options ! (if choice < length options then choice else 0)"

text \<open>
  The add form (the block under \<^verbatim>\<open>st.form("add_form", clear_on_submit=True)\<close>):
  \<^verbatim>\<open>
  name = st.text_input("Name")
  email = st.text_input("Email")
  age = st.number_input("Age", min_value=0, max_value=150, value=18)
  notes = st.text_area("Notes", value="")
  submitted = st.form_submit_button("Add Entry")
  if submitted:
      if not name or not email:
          st.error("Name and Email are required.")
      else:
          new_id = insert_entry(name.strip(), email.strip(), int(age), notes.strip())
          st.success(f"Entry added with id {new_id}")
  \<close>
\<close>

definition add_form :: "user \<Rightarrow> store \<Rightarrow> exn + (message list \<times> store)" where
  "add_form u s =
     (case number_input 0 150 18 (add_age u) of
        Inl e \<Rightarrow> Inl e
      | Inr ag \<Rightarrow>
          if add_submitted u then
            if add_name u = [] \<or> add_email u = [] then Inr ([RequiredFields], s)
            else (case insert_entry (strip (add_name u)) (strip (add_email u)) (Some ag)
                         (strip (add_notes u)) s of
                    Inl e \<Rightarrow> Inl e
                  | Inr (new_id, s') \<Rightarrow> Inr ([EntryAdded new_id], s'))
          else Inr ([], s))"

text \<open>
  The update section. The labels of the select box are made of the id, the name and the
  email of each row, one label for each id, so that the chosen label stands for the id
  of the row at the chosen position.
  \<^verbatim>\<open>
  if rows:
      selected_label = st.selectbox("Select record to edit", options=list(selection_map.keys()))
      selected_id = selection_map[selected_label]
      record = get_entry(selected_id)
      if record:
          with st.form("update_form"):
              new_name = st.text_input("Name", value=record["name"])
              new_email = st.text_input("Email", value=record["email"])
              new_age = st.number_input("Age", min_value=0, max_value=150,
                  value=record["age"] if record["age"] is not None else 18)
              new_notes = st.text_area("Notes", value=record["notes"] if record["notes"] else "")
              updated = st.form_submit_button("Save changes")
              if updated:
                  ok = update_entry(selected_id, new_name.strip(), new_email.strip(),
                      int(new_age), new_notes.strip())
                  if ok: st.success("Record updated successfully.")
                  else: st.error("Failed to update record. It may have been removed.")
      else:
          st.warning("Selected record not found.")
  else:
      st.info("No records to update.")
  \<close>
\<close>

definition update_form :: "user \<Rightarrow> entry list \<Rightarrow> store \<Rightarrow> exn + (message list \<times> store)" where
  "update_form u rws s =
     (if rws \<noteq> [] then
        (let selected_id = selectbox (map row_id rws) (edit_choice u) in
         case get_entry selected_id s of
           Inl e \<Rightarrow> Inl e
         | Inr None \<Rightarrow> Inr ([RecordNotFound], s)
         | Inr (Some record) \<Rightarrow>
             (let new_name = text_input (name record) (edit_name u);
                  new_email = text_input (email record) (edit_email u)
              in case number_input 0 150 (case age record of None \<Rightarrow> 18 | Some a \<Rightarrow> a)
                        (edit_age u) of
                   Inl e \<Rightarrow> Inl e
                 | Inr new_age \<Rightarrow>
                     (let new_notes =
                            text_input (case notes' record of None \<Rightarrow> [] | Some n \<Rightarrow> n)
                              (edit_notes u)
                      in if edit_submitted u then
                           (case update_entry selected_id (strip new_name) (strip new_email)
                                   (Some new_age) (strip new_notes) s of
                              Inl e \<Rightarrow> Inl e
                            | Inr (ok, s') \<Rightarrow>
                                Inr ([if ok then RecordUpdated else UpdateFailed], s'))
                         else Inr ([], s))))
      else Inr ([NothingToUpdate], s))"

text \<open>
  The delete section:
  \<^verbatim>\<open>
  if rows:
      del_label = st.selectbox("Select record to delete", options=..., key="del_select")
      del_id = selection_map[del_label]
      confirm_delete = st.checkbox("Confirm delete (check box to enable delete)", ...)
      if st.button("Delete Record"):
          if not confirm_delete:
              st.warning("Please check 'Confirm delete' before pressing Delete.")
          else:
              if delete_entry(del_id): st.success("Record deleted successfully")
              else: st.error("Failed to delete. It might already be removed.")
  else:
      st.info("No records to delete.")
  \<close>
\<close>

definition delete_section :: "user \<Rightarrow> entry list \<Rightarrow> store \<Rightarrow> exn + (message list \<times> store)" where
  "delete_section u rws s =
     (if rws \<noteq> [] then
        (let del_id = selectbox (map row_id rws) (del_choice u) in
         if del_clicked u then
           if \<not> del_confirm u then Inr ([ConfirmFirst], s)
           else (case delete_entry del_id s of
                   Inl e \<Rightarrow> Inl e
                 | Inr (ok, s') \<Rightarrow> Inr ([if ok then RecordDeleted else DeleteFailed], s'))
         else Inr ([], s))
      else Inr ([NothingToDelete], s))"

text \<open>
  \<^verbatim>\<open>main\<close>: \<^verbatim>\<open>init_db()\<close>, the add form, \<^verbatim>\<open>rows = view_all()\<close> and the table of
  records, the update section and the delete section, both on the \<^verbatim>\<open>rows\<close> read
  before them. There is no \<^verbatim>\<open>try\<close> in the source: an exception of any call ends the
  run and leaves \<^verbatim>\<open>main\<close>.
\<close>

definition main :: "user \<Rightarrow> store \<Rightarrow> exn + (message list \<times> store)" where
  "main u s =
     (case init_db s of
        Inl e \<Rightarrow> Inl e
      | Inr s0 \<Rightarrow>
          (case add_form u s0 of
             Inl e \<Rightarrow> Inl e
           | Inr (m1, s1) \<Rightarrow>
               (case view_all s1 of
                  Inl e \<Rightarrow> Inl e
                | Inr rws \<Rightarrow>
                    (case update_form u rws s1 of
                       Inl e \<Rightarrow> Inl e
                     | Inr (m2, s2) \<Rightarrow>
                         (case delete_section u rws s2 of
                            Inl e \<Rightarrow> Inl e
                          | Inr (m3, s3) \<Rightarrow>
                              Inr (m1 @ (if rws \<noteq> [] then [ShowRecords rws] else [NoRecords])
                                     @ m2 @ m3, s3))))))"

section \<open>The page on a shared file\<close>

text \<open>
  Every function of the gateway opens a connection of its own
  (\<^verbatim>\<open>with get_connection() as conn\<close>), so that between two calls of a run the file is
  in the hands of the file system and of the other sessions: it may have become
  unreadable, and rows may have come and gone. A world says what they do: \<open>w k s\<close> is the
  store that the call number \<open>k\<close> of a run finds when the run left the store \<open>s\<close>. The
  calls of \<^verbatim>\<open>main\<close>, in the order of the source: 0 is \<^verbatim>\<open>init_db\<close>, 1 is
  \<^verbatim>\<open>insert_entry\<close>, 2 is \<^verbatim>\<open>view_all\<close>, 3 is \<^verbatim>\<open>get_entry\<close>, 4 is \<^verbatim>\<open>update_entry\<close>
  and 5 is \<^verbatim>\<open>delete_entry\<close>. The definitions are those of the page above, call by
  call, each call on the store the world gives it; \<open>main\<close> is the run in a world that
  does nothing.
\<close>

type_synonym world = "nat \<Rightarrow> store \<Rightarrow> store"

definition add_form_shared :: "world \<Rightarrow> user \<Rightarrow> store \<Rightarrow> exn + (message list \<times> store)" where
  "add_form_shared w u s =
     (case number_input 0 150 18 (add_age u) of
        Inl e \<Rightarrow> Inl e
      | Inr ag \<Rightarrow>
          if add_submitted u then
            if add_name u = [] \<or> add_email u = [] then Inr ([RequiredFields], s)
            else (case insert_entry (strip (add_name u)) (strip (add_email u)) (Some ag)
                         (strip (add_notes u)) (w 1 s) of
                    Inl e \<Rightarrow> Inl e
                  | Inr (new_id, s') \<Rightarrow> Inr ([EntryAdded new_id], s'))
          else Inr ([], s))"

definition update_form_shared ::
  "world \<Rightarrow> user \<Rightarrow> entry list \<Rightarrow> store \<Rightarrow> exn + (message list \<times> store)" where
  "update_form_shared w u rws s =
     (if rws \<noteq> [] then
        (let selected_id = selectbox (map row_id rws) (edit_choice u) in
         case get_entry selected_id (w 3 s) of
           Inl e \<Rightarrow> Inl e
         | Inr None \<Rightarrow> Inr ([RecordNotFound], w 3 s)
         | Inr (Some record) \<Rightarrow>
             (let new_name = text_input (name record) (edit_name u);
                  new_email = text_input (email record) (edit_email u)
              in case number_input 0 150 (case age record of None \<Rightarrow> 18 | Some a \<Rightarrow> a)
                        (edit_age u) of
                   Inl e \<Rightarrow> Inl e
                 | Inr new_age \<Rightarrow>
                     (let new_notes =
                            text_input (case notes' record of None \<Rightarrow> [] | Some n \<Rightarrow> n)
                              (edit_notes u)
                      in if edit_submitted u then
                           (case update_entry selected_id (strip new_name) (strip new_email)
                                   (Some new_age) (strip new_notes) (w 4 (w 3 s)) of
                              Inl e \<Rightarrow> Inl e
                            | Inr (ok, s') \<Rightarrow>
                                Inr ([if ok then RecordUpdated else UpdateFailed], s'))
                         else Inr ([], w 3 s))))
      else Inr ([NothingToUpdate], s))"

definition delete_section_shared ::
  "world \<Rightarrow> user \<Rightarrow> entry list \<Rightarrow> store \<Rightarrow> exn + (message list \<times> store)" where
  "delete_section_shared w u rws s =
     (if rws \<noteq> [] then
        (let del_id = selectbox (map row_id rws) (del_choice u) in
         if del_clicked u then
           if \<not> del_confirm u then Inr ([ConfirmFirst], s)
           else (case delete_entry del_id (w 5 s) of
                   Inl e \<Rightarrow> Inl e
                 | Inr (ok, s') \<Rightarrow> Inr ([if ok then RecordDeleted else DeleteFailed], s'))
         else Inr ([], s))
      else Inr ([NothingToDelete], s))"

definition main_shared :: "world \<Rightarrow> user \<Rightarrow> store \<Rightarrow> exn + (message list \<times> store)" where
  "main_shared w u s =
     (case init_db (w 0 s) of
        Inl e \<Rightarrow> Inl e
      | Inr s0 \<Rightarrow>
          (case add_form_shared w u s0 of
             Inl e \<Rightarrow> Inl e
           | Inr (m1, s1) \<Rightarrow>
               (case view_all (w 2 s1) of
                  Inl e \<Rightarrow> Inl e
                | Inr rws \<Rightarrow>
                    (case update_form_shared w u rws (w 2 s1) of
                       Inl e \<Rightarrow> Inl e
                     | Inr (m2, s2) \<Rightarrow>
                         (case delete_section_shared w u rws s2 of
                            Inl e \<Rightarrow> Inl e
                          | Inr (m3, s3) \<Rightarrow>
                              Inr (m1 @ (if rws \<noteq> [] then [ShowRecords rws] else [NoRecords])
                                     @ m2 @ m3, s3))))))"

text \<open>
  Three worlds: one that does nothing, one in which the file cannot be opened when the
  call \<open>k\<close> comes, and one in which another session has deleted every row just before
  the call \<open>k\<close>.
\<close>

definition quiet :: world where
  "quiet k s = s"

definition unopenable_at :: "nat \<Rightarrow> world" where
  "unopenable_at k j s = (if j = k then Unopenable else s)"

definition emptied_at :: "nat \<Rightarrow> world" where
  "emptied_at k j s =
     (if j = k then (case s of Entries t \<Rightarrow> Entries (t\<lparr>rows := []\<rparr>) | _ \<Rightarrow> s) else s)"

text \<open>
  A run writes only rows whose age is a number of the form: every row of the store
  after the run was there before it, or has an age from 0 to 150.
\<close>

definition form_written :: "store \<Rightarrow> store \<Rightarrow> bool" where
  "form_written s s' =
     (\<forall>r \<in> set (table_rows s').
        r \<in> set (table_rows s) \<or> (\<exists>a. age r = Some a \<and> 0 \<le> a \<and> a \<le> 150))"

text \<open>The store a run leaves, or the exception that ends it.\<close>

definition store_after :: "exn + (message list \<times> store) \<Rightarrow> exn + store" where
  "store_after res = (case res of Inl e \<Rightarrow> Inl e | Inr (ms, s') \<Rightarrow> Inr s')"

section \<open>Example rows\<close>

text \<open>
  The rows of the scenario of the specification, and two more; the second has no age,
  as a row written by a caller that passes \<^verbatim>\<open>None\<close>.
\<close>

definition alice :: entry where
  "alice = \<lparr>row_id = 1, name = ''Alice'', email = ''alice@x.com'', age = Some 30,
            notes' = Some ''vip''\<rparr>"

definition bob :: entry where
  "bob = \<lparr>row_id = 2, name = ''Bob'', email = ''bob@x.com'', age = None, notes' = Some []\<rparr>"

definition carol :: entry where
  "carol = \<lparr>row_id = 3, name = ''Carol'', email = ''carol@x.com'', age = Some 41,
            notes' = Some ''new''\<rparr>"

text \<open>
  A user who has touched nothing, a user who submits the add form for Dave, and a table
  whose counter has reached the largest row id.
\<close>

definition idle :: user where
  "idle = \<lparr>add_name = [], add_email = [], add_age = None, add_notes = [],
            add_submitted = False, edit_choice = 0, edit_name = None, edit_email = None,
            edit_age = None, edit_notes = None, edit_submitted = False, del_choice = 0,
            del_confirm = False, del_clicked = False\<rparr>"

definition full_table :: table where
  "full_table = \<lparr>rows = [alice], seq = 9223372036854775807\<rparr>"

definition two_rows :: table where
  "two_rows = \<lparr>rows = [alice, bob], seq = 2\<rparr>"

definition dave :: user where
  "dave = idle\<lparr>add_name := ''Dave'', add_email := ''dave@x.com'', add_submitted := True\<rparr>"

text \<open>A user who submits the add form with one blank for the name.\<close>

definition blank_name :: user where
  "blank_name = idle\<lparr>add_name := '' '', add_email := ''a@x.com'', add_submitted := True\<rparr>"

section \<open>The gateway on a table\<close>

lemma max_rowid_None: "max_rowid rs = None \<longleftrightarrow> rs = []"
  by (cases rs) simp_all

lemma max_rowid_bound: "max_rowid rs = Some m \<Longrightarrow> r \<in> set rs \<Longrightarrow> row_id r \<le> m"
  by (induction rs arbitrary: m) (auto simp: max_rowid_None split: option.splits)

lemma new_rowid_fresh: "new_rowid t = Some v \<Longrightarrow> r \<in> set (rows t) \<Longrightarrow> row_id r < v"
  by (auto simp: new_rowid_def max_rowid_None split: option.splits if_splits
      dest: max_rowid_bound)

lemma new_rowid_above_seq: "new_rowid t = Some v \<Longrightarrow> seq t < v"
  by (auto simp: new_rowid_def split: option.splits if_splits)

lemma new_rowid_range: "new_rowid t = Some v \<Longrightarrow> in_int64 (seq t) \<Longrightarrow> in_int64 v"
  by (auto simp: new_rowid_def in_int64_def MAX_ROWID_def split: option.splits if_splits)

lemma find_fresh: "\<forall>r \<in> set rs. row_id r \<noteq> v \<Longrightarrow> find (\<lambda>r. row_id r = v) (rs @ [x]) =
    (if row_id x = v then Some x else None)"
  by (induction rs) auto

lemma max_rowid_mem: "max_rowid rs = Some m \<Longrightarrow> \<exists>r \<in> set rs. row_id r = m"
proof (induction rs arbitrary: m)
  case Nil
  then show ?case by simp
next
  case (Cons a rs)
  show ?case
  proof (cases "max_rowid rs")
    case None
    with Cons.prems show ?thesis by simp
  next
    case (Some k)
    with Cons.IH obtain x where "x \<in> set rs" "row_id x = k" by blast
    with Some Cons.prems show ?thesis by (auto simp: max_def split: if_splits)
  qed
qed

lemma room_new_rowid: "room t \<Longrightarrow> \<exists>v. new_rowid t = Some v"
proof (cases "max_rowid (rows t)")
  case None
  assume "room t"
  with None show ?thesis by (simp add: room_def new_rowid_def)
next
  case (Some m)
  assume r: "room t"
  from Some obtain x where "x \<in> set (rows t)" "row_id x = m"
    using max_rowid_mem by blast
  with r have "m < MAX_ROWID" by (auto simp: room_def)
  with r Some show ?thesis by (simp add: room_def new_rowid_def)
qed

lemma delete_result:
  "in_int64 i \<Longrightarrow> delete_entry i (Entries t) =
     Inr (i \<in> row_id ` set (rows t), Entries (t\<lparr>rows := filter (\<lambda>r. row_id r \<noteq> i) (rows t)\<rparr>))"
  by (auto simp add: delete_entry_def filter_empty_conv)

lemma find_filter_out: "find (\<lambda>r. row_id r = i) (filter (\<lambda>r. row_id r \<noteq> i) rs) = None"
  by (simp add: find_None_iff)

lemma entry_updated:
  "(r::entry)\<lparr>name := nm, email := em, age := ag, notes' := nt\<rparr> =
     \<lparr>row_id = row_id r, name = nm, email = em, age = ag, notes' = nt\<rparr>"
  by (cases r) simp

lemma update_result:
  "in_int64 i \<Longrightarrow> bindable ag \<Longrightarrow> update_entry i nm em ag nt (Entries t) =
     Inr (i \<in> row_id ` set (rows t),
          Entries (t\<lparr>rows := map (\<lambda>r. if row_id r = i
              then r\<lparr>name := nm, email := em, age := ag, notes' := Some nt\<rparr> else r) (rows t)\<rparr>))"
  by (auto simp add: update_entry_def filter_empty_conv)

lemma find_map_hit:
  "i \<in> row_id ` set rs \<Longrightarrow> \<forall>r. row_id (f r) = row_id r \<Longrightarrow>
     \<exists>r \<in> set rs. row_id r = i \<and>
        find (\<lambda>r. row_id r = i) (map (\<lambda>r. if row_id r = i then f r else r) rs) = Some (f r)"
  by (induction rs) auto

lemma map_miss:
  "i \<notin> row_id ` set rs \<Longrightarrow> map (\<lambda>r. if row_id r = i then f r else r) rs = rs"
  by (induction rs) auto

lemma filter_map_others:
  "\<forall>r. row_id (f r) = row_id r \<Longrightarrow>
     filter (\<lambda>r. row_id r \<noteq> i) (map (\<lambda>r. if row_id r = i then f r else r) rs) =
     filter (\<lambda>r. row_id r \<noteq> i) rs"
  by (induction rs) auto

lemma view_all_sorted:
  "sorted_wrt (\<lambda>a b. row_id b \<le> row_id a) (rev (sort_key row_id rs))"
proof -
  have "sorted (map row_id (sort_key row_id rs))" by (rule sorted_sort_key)
  then have "sorted_wrt (\<lambda>a b. row_id a \<le> row_id b) (sort_key row_id rs)"
    by (simp add: sorted_wrt_map)
  then show ?thesis by (simp add: sorted_wrt_rev)
qed

lemma view_all_strict:
  assumes "distinct (map row_id rs)"
  shows "sorted_wrt (\<lambda>a b. row_id b < row_id a) (rev (sort_key row_id rs))"
proof -
  have "sorted (map row_id (sort_key row_id rs))" by (rule sorted_sort_key)
  moreover have "distinct (map row_id (sort_key row_id rs))"
    using assms by (simp add: distinct_map)
  ultimately have "sorted_wrt (<) (map row_id (sort_key row_id rs))"
    by (simp add: strict_sorted_iff)
  then have "sorted_wrt (\<lambda>a b. row_id a < row_id b) (sort_key row_id rs)"
    by (simp add: sorted_wrt_map)
  then show ?thesis by (simp add: sorted_wrt_rev)
qed

section \<open>Create\<close>

text \<open>
  Claim C1. On every table SQLite can hold that has room for a row, and for every name,
  email, age that fits 64 bits (or no age) and notes, \<open>insert_entry\<close> returns an id that
  no row of the table had, and \<open>get_entry\<close> of that id then returns the row with that
  id and exactly the name, email, age and notes given.
\<close>

theorem create_then_get:
  "wf_table t \<Longrightarrow> room t \<Longrightarrow> bindable ag \<Longrightarrow>
     \<exists>v s'. insert_entry nm em ag nt (Entries t) = Inr (v, s') \<and>
            v \<notin> row_id ` set (rows t) \<and>
            get_entry v s' =
              Inr (Some \<lparr>row_id = v, name = nm, email = em, age = ag, notes' = Some nt\<rparr>)"
proof -
  assume wf: "wf_table t" and "room t" and b: "bindable ag"
  then obtain v where v: "new_rowid t = Some v"
    using room_new_rowid by blast
  let ?x = "\<lparr>row_id = v, name = nm, email = em, age = ag, notes' = Some nt\<rparr>"
  let ?s = "Entries \<lparr>rows = rows t @ [?x], seq = v\<rparr>"
  have fresh: "\<forall>r \<in> set (rows t). row_id r \<noteq> v"
    using new_rowid_fresh [OF v] by fastforce
  have "in_int64 v"
    using new_rowid_range [OF v] wf by (simp add: wf_table_def)
  then have "get_entry v ?s = Inr (Some ?x)"
    using fresh by (simp add: get_entry_def find_fresh)
  moreover have "insert_entry nm em ag nt (Entries t) = Inr (v, ?s)"
    using v b by (simp add: insert_entry_def)
  moreover have "v \<notin> row_id ` set (rows t)"
    using fresh by blast
  ultimately show ?thesis by blast
qed

theorem create_then_get_witness:
  "wf_table \<lparr>rows = [], seq = 0\<rparr> \<and> room \<lparr>rows = [], seq = 0\<rparr> \<and> bindable (Some 30) \<and>
   insert_entry ''Alice'' ''alice@x.com'' (Some 30) ''vip'' (Entries \<lparr>rows = [], seq = 0\<rparr>) =
     Inr (1, Entries \<lparr>rows = [alice], seq = 1\<rparr>) \<and>
   get_entry 1 (Entries \<lparr>rows = [alice], seq = 1\<rparr>) = Inr (Some alice)"
  using create_then_get [of "\<lparr>rows = [], seq = 0\<rparr>" "Some 30" "''Alice''" "''alice@x.com''" "''vip''"]
  by (simp add: wf_table_def room_def in_int64_def MAX_ROWID_def insert_entry_def new_rowid_def
      get_entry_def alice_def)

section \<open>Update\<close>

text \<open>
  Claim C2. For every id and age SQLite can hold, \<open>update_entry\<close> returns, and returns
  true exactly when the table has a row with the id. When it has one, \<open>get_entry\<close> of the
  id then returns the row with the name, email, age and notes given; when it has none,
  the store is left as it was.
\<close>

theorem update_then_get:
  "in_int64 i \<Longrightarrow> bindable ag \<Longrightarrow>
     \<exists>s'. update_entry i nm em ag nt (Entries t) = Inr (i \<in> row_id ` set (rows t), s') \<and>
       (if i \<in> row_id ` set (rows t)
        then get_entry i s' =
               Inr (Some \<lparr>row_id = i, name = nm, email = em, age = ag, notes' = Some nt\<rparr>)
        else s' = Entries t)"
proof -
  assume i: "in_int64 i" and a: "bindable ag"
  let ?f = "\<lambda>r::entry. r\<lparr>name := nm, email := em, age := ag, notes' := Some nt\<rparr>"
  let ?rs = "map (\<lambda>r. if row_id r = i then ?f r else r) (rows t)"
  have res: "update_entry i nm em ag nt (Entries t) =
      Inr (i \<in> row_id ` set (rows t), Entries (t\<lparr>rows := ?rs\<rparr>))"
    using i a by (rule update_result)
  show ?thesis
  proof (cases "i \<in> row_id ` set (rows t)")
    case True
    then obtain r where "row_id r = i" "find (\<lambda>r. row_id r = i) ?rs = Some (?f r)"
      using find_map_hit [of i "rows t" ?f] by auto
    then have "get_entry i (Entries (t\<lparr>rows := ?rs\<rparr>)) =
        Inr (Some \<lparr>row_id = i, name = nm, email = em, age = ag, notes' = Some nt\<rparr>)"
      using i by (simp add: get_entry_def entry_updated)
    with res True show ?thesis by simp
  next
    case False
    then have "?rs = rows t" by (rule map_miss)
    with res False show ?thesis by simp
  qed
qed

theorem update_then_get_witness:
  "in_int64 1 \<and> bindable (Some 31) \<and> in_int64 7 \<and>
   update_entry 1 ''Alice B'' ''alice@x.com'' (Some 31) ''vip''
       (Entries \<lparr>rows = [alice, bob], seq = 2\<rparr>) =
     Inr (True, Entries \<lparr>rows = [alice\<lparr>name := ''Alice B'', age := Some 31\<rparr>, bob], seq = 2\<rparr>) \<and>
   get_entry 1 (Entries \<lparr>rows = [alice\<lparr>name := ''Alice B'', age := Some 31\<rparr>, bob], seq = 2\<rparr>) =
     Inr (Some \<lparr>row_id = 1, name = ''Alice B'', email = ''alice@x.com'', age = Some 31,
                notes' = Some ''vip''\<rparr>) \<and>
   update_entry 7 ''Alice B'' ''alice@x.com'' (Some 31) ''vip''
       (Entries \<lparr>rows = [alice, bob], seq = 2\<rparr>) =
     Inr (False, Entries \<lparr>rows = [alice, bob], seq = 2\<rparr>)"
  using update_then_get [of 1 "Some 31" "''Alice B''" "''alice@x.com''" "''vip''"
      "\<lparr>rows = [alice, bob], seq = 2\<rparr>"]
    update_then_get [of 7 "Some 31" "''Alice B''" "''alice@x.com''" "''vip''"
      "\<lparr>rows = [alice, bob], seq = 2\<rparr>"]
  by (simp add: in_int64_def MAX_ROWID_def update_entry_def get_entry_def alice_def bob_def)

section \<open>List\<close>

text \<open>
  Claim C4. For every table, \<open>view_all\<close> returns exactly the rows of the table, each as
  often as the table has it, with ids descending (strictly, as the ids of a table are
  distinct). Rows with the ids 1, 2 and 3, inserted in that order, come back in the order
  3, 2, 1, and the empty table gives the empty list, not an exception.
\<close>

theorem view_all_descending:
  "(\<exists>rs. view_all (Entries t) = Inr rs \<and> mset rs = mset (rows t) \<and>
         sorted_wrt (\<lambda>a b. row_id b \<le> row_id a) rs \<and>
         (distinct (map row_id (rows t)) \<longrightarrow> sorted_wrt (\<lambda>a b. row_id b < row_id a) rs)) \<and>
   view_all (Entries \<lparr>rows = [r1\<lparr>row_id := 1\<rparr>, r2\<lparr>row_id := 2\<rparr>, r3\<lparr>row_id := 3\<rparr>], seq = n\<rparr>) =
     Inr [r3\<lparr>row_id := 3\<rparr>, r2\<lparr>row_id := 2\<rparr>, r1\<lparr>row_id := 1\<rparr>] \<and>
   view_all (Entries \<lparr>rows = [], seq = n\<rparr>) = Inr []"
  by (simp add: view_all_def view_all_sorted view_all_strict)

theorem view_all_descending_witness:
  "init_db Blank = Inr (Entries \<lparr>rows = [], seq = 0\<rparr>) \<and>
   insert_entry ''Alice'' ''alice@x.com'' (Some 30) ''vip'' (Entries \<lparr>rows = [], seq = 0\<rparr>) =
     Inr (1, Entries \<lparr>rows = [alice], seq = 1\<rparr>) \<and>
   insert_entry ''Bob'' ''bob@x.com'' None [] (Entries \<lparr>rows = [alice], seq = 1\<rparr>) =
     Inr (2, Entries \<lparr>rows = [alice, bob], seq = 2\<rparr>) \<and>
   insert_entry ''Carol'' ''carol@x.com'' (Some 41) ''new''
       (Entries \<lparr>rows = [alice, bob], seq = 2\<rparr>) =
     Inr (3, Entries \<lparr>rows = [alice, bob, carol], seq = 3\<rparr>) \<and>
   distinct (map row_id [alice, bob, carol]) \<and>
   view_all (Entries \<lparr>rows = [alice, bob, carol], seq = 3\<rparr>) = Inr [carol, bob, alice] \<and>
   sorted_wrt (\<lambda>a b. row_id b < row_id a) [carol, bob, alice] \<and>
   view_all (Entries \<lparr>rows = [], seq = 0\<rparr>) = Inr []"
  using view_all_descending [of "\<lparr>rows = [alice, bob, carol], seq = 3\<rparr>" alice bob carol 3]
  by (simp add: init_db_def insert_entry_def new_rowid_def MAX_ROWID_def in_int64_def
      view_all_def alice_def bob_def carol_def)

section \<open>Initialize\<close>

text \<open>
  Claim C6. \<open>init_db\<close> on a store that has the table succeeds and leaves the store,
  rows and counter, as it is; on every store, a second \<open>init_db\<close> after a first one
  succeeds and changes nothing, and two calls have the result of one. It raises only
  when the file cannot be opened.
\<close>

theorem init_db_idempotent:
  "init_db (Entries t) = Inr (Entries t) \<and>
   (init_db s = Inr s' \<longrightarrow> init_db s' = Inr s') \<and>
   (case init_db s of Inl e \<Rightarrow> Inl e | Inr s' \<Rightarrow> init_db s') = init_db s \<and>
   (init_db s = Inl e \<longrightarrow> s = Unopenable)"
  by (cases s) (auto simp: init_db_def)

theorem init_db_idempotent_witness:
  "init_db (Entries \<lparr>rows = [alice, bob], seq = 2\<rparr>) = Inr (Entries \<lparr>rows = [alice, bob], seq = 2\<rparr>) \<and>
   init_db Blank = Inr (Entries \<lparr>rows = [], seq = 0\<rparr>) \<and>
   init_db (Entries \<lparr>rows = [], seq = 0\<rparr>) = Inr (Entries \<lparr>rows = [], seq = 0\<rparr>) \<and>
   init_db Unopenable = Inl UnableToOpen"
  using init_db_idempotent [of "\<lparr>rows = [alice, bob], seq = 2\<rparr>" Blank
      "Entries \<lparr>rows = [], seq = 0\<rparr>" UnableToOpen]
    init_db_idempotent [of "\<lparr>rows = [], seq = 0\<rparr>" Unopenable Blank UnableToOpen]
  by (simp add: init_db_def)

section \<open>The other rows\<close>

text \<open>
  Claim C9. An \<open>update_entry\<close> and a \<open>delete_entry\<close> of the id \<open>i\<close> that return leave
  the rows with another id, and the counter, as they were; an \<open>insert_entry\<close> that
  returns leaves every row of the table as it was and adds one row, with the new id, after
  them.
\<close>

theorem single_row_frame:
  "(update_entry i nm em ag nt (Entries t) = Inr (b, s') \<longrightarrow>
      (\<exists>t'. s' = Entries t' \<and> others i t' = others i t \<and> seq t' = seq t)) \<and>
   (delete_entry i (Entries t) = Inr (b, s') \<longrightarrow>
      (\<exists>t'. s' = Entries t' \<and> others i t' = others i t \<and> seq t' = seq t)) \<and>
   (insert_entry nm em ag nt (Entries t) = Inr (v, s') \<longrightarrow>
      (\<exists>t' x. s' = Entries t' \<and> rows t' = rows t @ [x] \<and> row_id x = v \<and> others v t' = rows t))"
proof (intro conjI impI)
  assume "update_entry i nm em ag nt (Entries t) = Inr (b, s')"
  then show "\<exists>t'. s' = Entries t' \<and> others i t' = others i t \<and> seq t' = seq t"
    by (auto simp: update_entry_def others_def filter_map_others split: if_splits)
next
  assume "delete_entry i (Entries t) = Inr (b, s')"
  then show "\<exists>t'. s' = Entries t' \<and> others i t' = others i t \<and> seq t' = seq t"
    by (auto simp: delete_entry_def others_def split: if_splits)
next
  assume ins: "insert_entry nm em ag nt (Entries t) = Inr (v, s')"
  then have v: "new_rowid t = Some v"
    by (auto simp: insert_entry_def split: if_splits option.splits)
  have "\<forall>r \<in> set (rows t). row_id r \<noteq> v"
    using new_rowid_fresh [OF v] by fastforce
  then have "filter (\<lambda>r. row_id r \<noteq> v) (rows t) = rows t"
    by (simp add: filter_id_conv)
  with ins show "\<exists>t' x. s' = Entries t' \<and> rows t' = rows t @ [x] \<and> row_id x = v \<and>
      others v t' = rows t"
    by (auto simp: insert_entry_def others_def split: if_splits option.splits)
qed

theorem single_row_frame_witness:
  "update_entry 2 ''Bob'' ''bob@y.com'' (Some 52) ''moved''
       (Entries \<lparr>rows = [alice, bob, carol], seq = 3\<rparr>) =
     Inr (True, Entries \<lparr>rows = [alice,
       \<lparr>row_id = 2, name = ''Bob'', email = ''bob@y.com'', age = Some 52, notes' = Some ''moved''\<rparr>,
       carol], seq = 3\<rparr>) \<and>
   others 2 \<lparr>rows = [alice,
       \<lparr>row_id = 2, name = ''Bob'', email = ''bob@y.com'', age = Some 52, notes' = Some ''moved''\<rparr>,
       carol], seq = 3\<rparr> = [alice, carol] \<and>
   others 2 \<lparr>rows = [alice, bob, carol], seq = 3\<rparr> = [alice, carol] \<and>
   delete_entry 2 (Entries \<lparr>rows = [alice, bob, carol], seq = 3\<rparr>) =
     Inr (True, Entries \<lparr>rows = [alice, carol], seq = 3\<rparr>) \<and>
   others 2 \<lparr>rows = [alice, carol], seq = 3\<rparr> = [alice, carol] \<and>
   insert_entry ''Carol'' ''carol@x.com'' (Some 41) ''new''
       (Entries \<lparr>rows = [alice, bob], seq = 2\<rparr>) =
     Inr (3, Entries \<lparr>rows = [alice, bob, carol], seq = 3\<rparr>) \<and>
   others 3 \<lparr>rows = [alice, bob, carol], seq = 3\<rparr> = [alice, bob]"
  using single_row_frame [of 2 "''Bob''" "''bob@y.com''" "Some 52" "''moved''"
      "\<lparr>rows = [alice, bob, carol], seq = 3\<rparr>" True
      "Entries \<lparr>rows = [alice,
         \<lparr>row_id = 2, name = ''Bob'', email = ''bob@y.com'', age = Some 52, notes' = Some ''moved''\<rparr>,
         carol], seq = 3\<rparr>" 3]
    single_row_frame [of 2 "''Bob''" "''bob@y.com''" "Some 52" "''moved''"
      "\<lparr>rows = [alice, bob, carol], seq = 3\<rparr>" True
      "Entries \<lparr>rows = [alice, carol], seq = 3\<rparr>" 3]
    single_row_frame [of 2 "''Carol''" "''carol@x.com''" "Some 41" "''new''"
      "\<lparr>rows = [alice, bob], seq = 2\<rparr>" True
      "Entries \<lparr>rows = [alice, bob, carol], seq = 3\<rparr>" 3]
  by (simp add: update_entry_def delete_entry_def insert_entry_def new_rowid_def others_def
      in_int64_def MAX_ROWID_def alice_def bob_def carol_def)

section \<open>Delete\<close>

text \<open>
  Claim C3. For every id SQLite can hold, \<open>delete_entry\<close> returns, and returns true
  exactly when the table had a row with that id; after it \<open>get_entry\<close> of the id finds
  no row, and a second \<open>delete_entry\<close> of the id returns false and changes nothing.
\<close>

theorem delete_then_get:
  "in_int64 i \<Longrightarrow>
     \<exists>s'. delete_entry i (Entries t) = Inr (i \<in> row_id ` set (rows t), s') \<and>
          get_entry i s' = Inr None \<and>
          delete_entry i s' = Inr (False, s')"
proof -
  assume i: "in_int64 i"
  let ?t' = "t\<lparr>rows := filter (\<lambda>r. row_id r \<noteq> i) (rows t)\<rparr>"
  have 1: "delete_entry i (Entries t) = Inr (i \<in> row_id ` set (rows t), Entries ?t')"
    using i by (rule delete_result)
  have 2: "get_entry i (Entries ?t') = Inr None"
    using i by (simp add: get_entry_def find_filter_out)
  have 3: "delete_entry i (Entries ?t') = Inr (False, Entries ?t')"
    using i by (auto simp add: delete_result)
  from 1 2 3 show ?thesis by blast
qed

theorem delete_then_get_witness:
  "in_int64 1 \<and>
   delete_entry 1 (Entries \<lparr>rows =
       [\<lparr>row_id = 1, name = ''Alice B'', email = ''alice@x.com'', age = Some 31,
          notes' = Some ''vip''\<rparr>,
        \<lparr>row_id = 2, name = ''Bob'', email = ''bob@x.com'', age = None, notes' = Some []\<rparr>],
       seq = 2\<rparr>) =
     Inr (True, Entries \<lparr>rows =
       [\<lparr>row_id = 2, name = ''Bob'', email = ''bob@x.com'', age = None, notes' = Some []\<rparr>],
       seq = 2\<rparr>) \<and>
   get_entry 1 (Entries \<lparr>rows =
       [\<lparr>row_id = 2, name = ''Bob'', email = ''bob@x.com'', age = None, notes' = Some []\<rparr>],
       seq = 2\<rparr>) = Inr None \<and>
   delete_entry 1 (Entries \<lparr>rows =
       [\<lparr>row_id = 2, name = ''Bob'', email = ''bob@x.com'', age = None, notes' = Some []\<rparr>],
       seq = 2\<rparr>) =
     Inr (False, Entries \<lparr>rows =
       [\<lparr>row_id = 2, name = ''Bob'', email = ''bob@x.com'', age = None, notes' = Some []\<rparr>],
       seq = 2\<rparr>)"
  using delete_then_get [of 1 "\<lparr>rows =
       [\<lparr>row_id = 1, name = ''Alice B'', email = ''alice@x.com'', age = Some 31,
          notes' = Some ''vip''\<rparr>,
        \<lparr>row_id = 2, name = ''Bob'', email = ''bob@x.com'', age = None, notes' = Some []\<rparr>],
       seq = 2\<rparr>"]
  by (simp add: in_int64_def MAX_ROWID_def delete_entry_def get_entry_def)

section \<open>Identifiers\<close>

lemma insert_entry_Inr:
  "insert_entry nm em ag nt s = Inr (v, s') \<Longrightarrow>
     \<exists>t. s = Entries t \<and> bindable ag \<and> new_rowid t = Some v \<and>
         s' = Entries \<lparr>rows = rows t @
                [\<lparr>row_id = v, name = nm, email = em, age = ag, notes' = Some nt\<rparr>], seq = v\<rparr>"
  by (cases s) (auto simp: insert_entry_def split: if_splits option.splits)

lemma update_entry_Inr:
  "update_entry i nm em ag nt s = Inr (b, s') \<Longrightarrow>
     \<exists>t. s = Entries t \<and> bindable ag \<and> in_int64 i \<and>
         s' = Entries (t\<lparr>rows := map (\<lambda>r. if row_id r = i
              then r\<lparr>name := nm, email := em, age := ag, notes' := Some nt\<rparr> else r) (rows t)\<rparr>)"
  by (cases s) (auto simp: update_entry_def split: if_splits)

lemma delete_entry_Inr:
  "delete_entry i s = Inr (b, s') \<Longrightarrow>
     \<exists>t. s = Entries t \<and> in_int64 i \<and>
         s' = Entries (t\<lparr>rows := filter (\<lambda>r. row_id r \<noteq> i) (rows t)\<rparr>)"
  by (cases s) (auto simp: delete_entry_def split: if_splits)

lemma map_row_id_update:
  "map row_id (map (\<lambda>r. if row_id r = i
       then r\<lparr>name := nm, email := em, age := ag, notes' := nt\<rparr> else r) rs) = map row_id rs"
  by (induction rs) auto

lemma wf_insert:
  assumes wf: "wf_table t" and b: "bindable ag" and v: "new_rowid t = Some v"
  shows "wf_table \<lparr>rows = rows t @
           [\<lparr>row_id = v, name = nm, email = em, age = ag, notes' = nt\<rparr>], seq = v\<rparr>"
proof -
  have r: "in_int64 v" using new_rowid_range [OF v] wf by (simp add: wf_table_def)
  have lt: "\<forall>r \<in> set (rows t). row_id r < v" using new_rowid_fresh [OF v] by blast
  then have "v \<notin> row_id ` set (rows t)" by auto
  with wf b r lt show ?thesis by (auto simp: wf_table_def)
qed

lemma wf_update:
  assumes wf: "wf_table t" and b: "bindable ag"
  shows "wf_table (t\<lparr>rows := map (\<lambda>r. if row_id r = i
       then r\<lparr>name := nm, email := em, age := ag, notes' := nt\<rparr> else r) (rows t)\<rparr>)"
proof -
  let ?rs = "map (\<lambda>r. if row_id r = i
       then r\<lparr>name := nm, email := em, age := ag, notes' := nt\<rparr> else r) (rows t)"
  have ids: "map row_id ?rs = map row_id (rows t)" by (rule map_row_id_update)
  have "distinct (map row_id ?rs)" using wf unfolding ids by (simp add: wf_table_def)
  moreover have "\<forall>r \<in> set ?rs. in_int64 (row_id r) \<and> row_id r \<le> seq t \<and> bindable (age r)"
    using wf b by (auto simp: wf_table_def)
  moreover have "in_int64 (seq t)" using wf by (simp add: wf_table_def)
  ultimately show ?thesis unfolding wf_table_def by simp
qed

lemma wf_delete:
  assumes wf: "wf_table t"
  shows "wf_table (t\<lparr>rows := filter (\<lambda>r. row_id r \<noteq> i) (rows t)\<rparr>)"
  using wf by (auto simp: wf_table_def distinct_map_filter)

lemma apply_call_step:
  assumes wf: "wf_table t"
  shows "\<exists>t'. apply_call c (Entries t) = Entries t' \<and> wf_table t' \<and> seq t \<le> seq t'"
proof (cases c)
  case Initialize
  with wf show ?thesis by (simp add: init_db_def)
next
  case (Create nm em ag nt)
  show ?thesis
  proof (cases "insert_entry nm em ag nt (Entries t)")
    case (Inl e)
    with Create wf show ?thesis by simp
  next
    case (Inr p)
    obtain v s' where p: "p = (v, s')" by (cases p)
    from insert_entry_Inr [OF Inr [unfolded p]]
    have b: "bindable ag" and v: "new_rowid t = Some v"
      and s': "s' = Entries \<lparr>rows = rows t @
                [\<lparr>row_id = v, name = nm, email = em, age = ag, notes' = Some nt\<rparr>], seq = v\<rparr>"
      by auto
    have "seq t \<le> v" using new_rowid_above_seq [OF v] by simp
    with Create Inr p s' wf_insert [OF wf b v] show ?thesis by simp
  qed
next
  case (Update i nm em ag nt)
  show ?thesis
  proof (cases "update_entry i nm em ag nt (Entries t)")
    case (Inl e)
    with Update wf show ?thesis by simp
  next
    case (Inr p)
    obtain b s' where p: "p = (b, s')" by (cases p)
    from update_entry_Inr [OF Inr [unfolded p]]
    have b: "bindable ag"
      and s': "s' = Entries (t\<lparr>rows := map (\<lambda>r. if row_id r = i
              then r\<lparr>name := nm, email := em, age := ag, notes' := Some nt\<rparr> else r) (rows t)\<rparr>)"
      by auto
    with Update Inr p wf_update [OF wf b] show ?thesis by simp
  qed
next
  case (Delete i)
  show ?thesis
  proof (cases "delete_entry i (Entries t)")
    case (Inl e)
    with Delete wf show ?thesis by simp
  next
    case (Inr p)
    obtain b s' where p: "p = (b, s')" by (cases p)
    from delete_entry_Inr [OF Inr [unfolded p]]
    have s': "s' = Entries (t\<lparr>rows := filter (\<lambda>r. row_id r \<noteq> i) (rows t)\<rparr>)"
      by auto
    with Delete Inr p wf_delete [OF wf] show ?thesis by simp
  qed
qed

lemma run_step:
  "wf_table t \<Longrightarrow> \<exists>t'. run cs (Entries t) = Entries t' \<and> wf_table t' \<and> seq t \<le> seq t'"
proof (induction cs arbitrary: t)
  case Nil
  then show ?case by (simp add: run_def)
next
  case (Cons c cs)
  from apply_call_step [OF Cons.prems, of c]
  obtain t1 where 1: "apply_call c (Entries t) = Entries t1" "wf_table t1" "seq t \<le> seq t1"
    by blast
  from Cons.IH [OF 1(2)]
  obtain t2 where 2: "run cs (Entries t1) = Entries t2" "wf_table t2" "seq t1 \<le> seq t2"
    by blast
  from 1 2 show ?case by (simp add: run_def)
qed

lemma wf_store_apply_call: "wf_store s \<Longrightarrow> wf_store (apply_call c s)"
proof (cases s)
  case Unopenable
  then show ?thesis
    by (cases c) (simp_all add: init_db_def insert_entry_def update_entry_def delete_entry_def)
next
  case Blank
  then show ?thesis
    by (cases c) (simp_all add: init_db_def insert_entry_def update_entry_def delete_entry_def
        wf_table_def in_int64_def MAX_ROWID_def)
next
  case (Entries t)
  assume "wf_store s"
  with Entries have "wf_table t" by simp
  from apply_call_step [OF this, of c] Entries show ?thesis by auto
qed

lemma wf_store_run: "wf_store s \<Longrightarrow> wf_store (run cs s)"
  by (induction cs arbitrary: s) (simp_all add: run_def wf_store_apply_call)

lemma run_append: "run (pre @ mid) s = run mid (run pre s)"
  by (simp add: run_def)

text \<open>
  Claim C7. From a store SQLite can hold, after any calls of the gateway: the id that
  \<open>insert_entry\<close> gives a new row is greater than the id of every row the table held
  at any earlier moment, deleted since or not, so that no id is given twice. No call
  changes the id of a row: \<open>update_entry\<close> leaves the ids of the rows as they are, row
  by row, \<open>delete_entry\<close> leaves the rows it keeps as they are, and \<open>insert_entry\<close>
  adds its row after the rows of the table.
\<close>

theorem id_never_reused:
  "wf_store s \<Longrightarrow>
     (r \<in> set (table_rows (run pre s)) \<and>
      insert_entry nm em ag nt (run (pre @ mid) s) = Inr (v, s') \<longrightarrow> row_id r < v) \<and>
     (update_entry i nm em ag nt s = Inr (b, s') \<longrightarrow>
        map row_id (table_rows s') = map row_id (table_rows s)) \<and>
     (delete_entry i s = Inr (b, s') \<longrightarrow>
        table_rows s' = filter (\<lambda>r. row_id r \<noteq> i) (table_rows s)) \<and>
     (insert_entry nm em ag nt s = Inr (v, s') \<longrightarrow>
        (\<exists>x. table_rows s' = table_rows s @ [x] \<and> row_id x = v))"
proof (intro conjI impI)
  assume wf: "wf_store s"
  assume a: "r \<in> set (table_rows (run pre s)) \<and>
      insert_entry nm em ag nt (run (pre @ mid) s) = Inr (v, s')"
  then obtain t where t: "run pre s = Entries t" by (cases "run pre s") auto
  have wft: "wf_table t" using wf_store_run [OF wf, of pre] t by simp
  from run_step [OF wft, of mid]
  obtain t' where t': "run mid (Entries t) = Entries t'" "seq t \<le> seq t'" by blast
  from a t t' have "insert_entry nm em ag nt (Entries t') = Inr (v, s')"
    by (simp add: run_append)
  then have "new_rowid t' = Some v" using insert_entry_Inr by fastforce
  then have "seq t' < v" by (rule new_rowid_above_seq)
  moreover have "row_id r \<le> seq t" using a t wft by (auto simp: wf_table_def)
  ultimately show "row_id r < v" using t'(2) by linarith
next
  assume "update_entry i nm em ag nt s = Inr (b, s')"
  from update_entry_Inr [OF this]
  show "map row_id (table_rows s') = map row_id (table_rows s)"
    by (auto simp: map_row_id_update)
next
  assume "delete_entry i s = Inr (b, s')"
  from delete_entry_Inr [OF this]
  show "table_rows s' = filter (\<lambda>r. row_id r \<noteq> i) (table_rows s)" by auto
next
  assume "insert_entry nm em ag nt s = Inr (v, s')"
  from insert_entry_Inr [OF this]
  show "\<exists>x. table_rows s' = table_rows s @ [x] \<and> row_id x = v" by auto
qed

theorem id_never_reused_witness:
  "wf_store Blank \<and>
   run [Initialize, Create ''Alice'' ''alice@x.com'' (Some 30) ''vip'',
        Create ''Bob'' ''bob@x.com'' None []] Blank =
     Entries \<lparr>rows = [alice, bob], seq = 2\<rparr> \<and>
   run ([Initialize, Create ''Alice'' ''alice@x.com'' (Some 30) ''vip'',
         Create ''Bob'' ''bob@x.com'' None []] @ [Delete 2, Delete 1]) Blank =
     Entries \<lparr>rows = [], seq = 2\<rparr> \<and>
   insert_entry ''Carol'' ''carol@x.com'' (Some 41) ''new'' (Entries \<lparr>rows = [], seq = 2\<rparr>) =
     Inr (3, Entries \<lparr>rows = [carol], seq = 3\<rparr>) \<and>
   row_id bob < 3"
  using id_never_reused [where s = Blank and r = bob
      and pre = "[Initialize, Create ''Alice'' ''alice@x.com'' (Some 30) ''vip'',
                  Create ''Bob'' ''bob@x.com'' None []]"
      and mid = "[Delete 2, Delete 1]"
      and nm = "''Carol''" and em = "''carol@x.com''" and ag = "Some 41" and nt = "''new''"
      and v = 3 and s' = "Entries \<lparr>rows = [carol], seq = 3\<rparr>"]
  by (simp add: run_def init_db_def insert_entry_def delete_entry_def new_rowid_def
      MAX_ROWID_def in_int64_def alice_def bob_def carol_def)

section \<open>Required fields\<close>

lemma number_input_range:
  "number_input lo hi val typed = Inr a \<Longrightarrow> lo \<le> a \<and> a \<le> hi"
  by (auto simp: number_input_def split: if_splits option.splits)

lemma number_input_add: "\<exists>a. number_input 0 150 18 typed = Inr a"
  by (simp add: number_input_def)

lemma insert_entry_fails:
  "insert_entry nm em ag nt s = Inl e \<longleftrightarrow> insert_entry nm' em' ag nt s = Inl e"
  by (cases s) (auto simp: insert_entry_def split: option.splits)

lemma add_form_invalid:
  "add_submitted u \<Longrightarrow> add_name u = [] \<or> add_email u = [] \<Longrightarrow>
     add_form u s = Inr ([RequiredFields], s)"
  by (auto simp: add_form_def number_input_def)

lemma add_form_idle:
  "\<not> add_submitted u \<Longrightarrow> add_form u s = Inr ([], s)"
  by (auto simp: add_form_def number_input_def)

lemma update_form_add_submitted [simp]:
  "update_form (u\<lparr>add_submitted := x\<rparr>) rws s = update_form u rws s"
  by (simp add: update_form_def Let_def cong: sum.case_cong option.case_cong)

lemma delete_section_add_submitted [simp]:
  "delete_section (u\<lparr>add_submitted := x\<rparr>) rws s = delete_section u rws s"
  by (simp add: delete_section_def)

lemma main_invalid_add:
  assumes "add_name u = [] \<or> add_email u = []"
  shows "store_after (main u s) = store_after (main (u\<lparr>add_submitted := False\<rparr>) s)"
proof (cases "init_db s")
  case (Inl e)
  then show ?thesis by (simp add: main_def)
next
  case (Inr s0)
  have 1: "add_form (u\<lparr>add_submitted := False\<rparr>) s0 = Inr ([], s0)"
    by (simp add: add_form_idle)
  have "\<exists>m. add_form u s0 = Inr (m, s0)"
    using assms add_form_invalid [of u s0] add_form_idle [of u s0] by (cases "add_submitted u") auto
  then obtain m where 2: "add_form u s0 = Inr (m, s0)" by blast
  show ?thesis
    by (simp add: main_def Inr 1 2 store_after_def split: sum.splits prod.splits)
qed

text \<open>
  Claim C8. \<open>insert_entry\<close> takes every name and email, the empty strings too, and the
  add form is where empty ones are meant to be refused: a submitted form whose name or
  email is empty as typed shows the message and calls nothing (\<open>add_form_invalid\<close>).
  But the form looks at the text as typed and passes the text after \<^verbatim>\<open>strip()\<close>. For a
  name of one blank the check passes, \<open>insert_entry\<close> is called with the empty name and
  the row is stored with it: at this input the caller does not keep the precondition of
  create, and no failure is reported.
\<close>

theorem blank_name_reaches_create:
  "add_name blank_name = '' '' \<and> strip (add_name blank_name) = [] \<and>
   add_form blank_name (Entries \<lparr>rows = [], seq = 0\<rparr>) =
     Inr ([EntryAdded 1], Entries \<lparr>rows =
       [\<lparr>row_id = 1, name = [], email = ''a@x.com'', age = Some 18, notes' = Some []\<rparr>],
       seq = 1\<rparr>) \<and>
   insert_entry [] ''a@x.com'' (Some 18) [] (Entries \<lparr>rows = [], seq = 0\<rparr>) =
     Inr (1, Entries \<lparr>rows =
       [\<lparr>row_id = 1, name = [], email = ''a@x.com'', age = Some 18, notes' = Some []\<rparr>],
       seq = 1\<rparr>) \<and>
   main blank_name Blank =
     Inr ([EntryAdded 1,
           ShowRecords
             [\<lparr>row_id = 1, name = [], email = ''a@x.com'', age = Some 18, notes' = Some []\<rparr>]],
          Entries \<lparr>rows =
       [\<lparr>row_id = 1, name = [], email = ''a@x.com'', age = Some 18, notes' = Some []\<rparr>],
       seq = 1\<rparr>)"
  by (simp add: blank_name_def idle_def main_def init_db_def add_form_def number_input_def
      insert_entry_def new_rowid_def MAX_ROWID_def in_int64_def strip_def isspace_def
      view_all_def update_form_def delete_section_def selectbox_def get_entry_def
      text_input_def)

section \<open>The age of a row written by the forms\<close>

lemma get_entry_Some:
  "get_entry i s = Inr (Some r) \<Longrightarrow>
     \<exists>t. s = Entries t \<and> in_int64 i \<and> r \<in> set (rows t) \<and> row_id r = i"
  by (cases s) (auto simp: get_entry_def find_Some_iff split: if_splits)

lemma get_after_update:
  assumes "in_int64 i" and "i \<in> row_id ` set (rows t)"
  shows "get_entry i (Entries (t\<lparr>rows := map (\<lambda>r. if row_id r = i
            then r\<lparr>name := nm, email := em, age := ag, notes' := nt\<rparr> else r) (rows t)\<rparr>)) =
         Inr (Some \<lparr>row_id = i, name = nm, email = em, age = ag, notes' = nt\<rparr>)"
proof -
  let ?f = "\<lambda>r::entry. r\<lparr>name := nm, email := em, age := ag, notes' := nt\<rparr>"
  obtain r where "row_id r = i"
    "find (\<lambda>r. row_id r = i) (map (\<lambda>r. if row_id r = i then ?f r else r) (rows t)) = Some (?f r)"
    using find_map_hit [of i "rows t" ?f] assms(2) by auto
  then show ?thesis using assms(1) by (simp add: get_entry_def entry_updated)
qed

lemma update_form_null_age:
  assumes rws: "rws \<noteq> []"
    and got: "get_entry (selectbox (map row_id rws) (edit_choice u)) s = Inr (Some r)"
    and null: "age r = None" and same: "edit_age u = None" and sub: "edit_submitted u"
  shows "\<exists>s' r'. update_form u rws s = Inr ([RecordUpdated], s') \<and>
           get_entry (selectbox (map row_id rws) (edit_choice u)) s' = Inr (Some r') \<and>
           age r' = Some 18"
proof -
  let ?i = "selectbox (map row_id rws) (edit_choice u)"
  from get_entry_Some [OF got] obtain t where
    t: "s = Entries t" "in_int64 ?i" "r \<in> set (rows t)" "row_id r = ?i" by blast
  then have mem: "?i \<in> row_id ` set (rows t)" by force
  have b: "bindable (Some 18)" by (simp add: in_int64_def MAX_ROWID_def)
  let ?nm = "strip (text_input (name r) (edit_name u))"
  let ?em = "strip (text_input (email r) (edit_email u))"
  let ?nt = "strip (text_input (case notes' r of None \<Rightarrow> [] | Some n \<Rightarrow> n) (edit_notes u))"
  let ?t' = "t\<lparr>rows := map (\<lambda>r. if row_id r = ?i
            then r\<lparr>name := ?nm, email := ?em, age := Some 18, notes' := Some ?nt\<rparr> else r) (rows t)\<rparr>"
  have upd: "update_entry ?i ?nm ?em (Some 18) ?nt s = Inr (True, Entries ?t')"
    using update_result [OF t(2) b, of ?nm ?em ?nt t] mem t(1) by simp
  have "update_form u rws s = Inr ([RecordUpdated], Entries ?t')"
    using rws got null same sub upd by (simp add: update_form_def Let_def number_input_def)
  moreover have "get_entry ?i (Entries ?t') =
      Inr (Some \<lparr>row_id = ?i, name = ?nm, email = ?em, age = Some 18, notes' = Some ?nt\<rparr>)"
    using t(2) mem by (rule get_after_update)
  ultimately show ?thesis by simp
qed

lemma form_written_refl: "form_written s s"
  by (simp add: form_written_def)

lemma form_written_trans: "form_written s s1 \<Longrightarrow> form_written s1 s2 \<Longrightarrow> form_written s s2"
  unfolding form_written_def by blast

lemma form_written_init: "init_db s = Inr s0 \<Longrightarrow> form_written s s0"
  by (cases s) (auto simp: init_db_def form_written_def)

lemma form_written_add: "add_form u s = Inr (m, s') \<Longrightarrow> form_written s s'"
proof -
  assume a: "add_form u s = Inr (m, s')"
  obtain ag where ag: "number_input 0 150 18 (add_age u) = Inr ag"
    using number_input_add by blast
  then have r: "0 \<le> ag \<and> ag \<le> 150" by (rule number_input_range)
  show ?thesis
  proof (cases "add_submitted u \<and> add_name u \<noteq> [] \<and> add_email u \<noteq> []")
    case False
    with a ag have "s' = s" by (auto simp: add_form_def split: if_splits)
    then show ?thesis by (simp add: form_written_refl)
  next
    case True
    with a ag obtain v where
      "insert_entry (strip (add_name u)) (strip (add_email u)) (Some ag) (strip (add_notes u)) s
         = Inr (v, s')"
      by (auto simp: add_form_def split: sum.splits)
    from insert_entry_Inr [OF this] r show ?thesis
      by (auto simp: form_written_def)
  qed
qed

lemma form_written_update_entry:
  "update_entry i nm em (Some a) nt s = Inr (b, s') \<Longrightarrow> 0 \<le> a \<Longrightarrow> a \<le> 150 \<Longrightarrow>
     form_written s s'"
  by (drule update_entry_Inr) (auto simp: form_written_def)

lemma form_written_update: "update_form u rws s = Inr (m, s') \<Longrightarrow> form_written s s'"
proof -
  assume a: "update_form u rws s = Inr (m, s')"
  show ?thesis
  proof (cases "rws \<noteq> [] \<and> edit_submitted u")
    case False
    with a have "s' = s"
      by (auto simp: update_form_def Let_def split: if_splits sum.splits option.splits)
    then show ?thesis by (simp add: form_written_refl)
  next
    case True
    show ?thesis
    proof (cases "get_entry (selectbox (map row_id rws) (edit_choice u)) s")
      case (Inl e)
      with a True show ?thesis by (simp add: update_form_def Let_def)
    next
      case (Inr ro)
      show ?thesis
      proof (cases ro)
        case None
        with a True Inr have "s' = s" by (simp add: update_form_def Let_def)
        then show ?thesis by (simp add: form_written_refl)
      next
        case (Some r)
        show ?thesis
        proof (cases "number_input 0 150 (case age r of None \<Rightarrow> 18 | Some a \<Rightarrow> a) (edit_age u)")
          case (Inl e)
          with a True Inr Some show ?thesis by (simp add: update_form_def Let_def)
        next
          case new_age: (Inr ag)
          then have r: "0 \<le> ag" "ag \<le> 150" using number_input_range by blast+
          from a True Inr Some new_age obtain b where
            "update_entry (selectbox (map row_id rws) (edit_choice u))
               (strip (text_input (name r) (edit_name u)))
               (strip (text_input (email r) (edit_email u))) (Some ag)
               (strip (text_input (case notes' r of None \<Rightarrow> [] | Some n \<Rightarrow> n) (edit_notes u))) s
             = Inr (b, s')"
            by (auto simp: update_form_def Let_def split: sum.splits)
          then show ?thesis using r by (rule form_written_update_entry)
        qed
      qed
    qed
  qed
qed

lemma form_written_delete: "delete_section u rws s = Inr (m, s') \<Longrightarrow> form_written s s'"
proof -
  assume a: "delete_section u rws s = Inr (m, s')"
  show ?thesis
  proof (cases "rws \<noteq> [] \<and> del_clicked u \<and> del_confirm u")
    case False
    with a have "s' = s" by (auto simp: delete_section_def Let_def split: if_splits)
    then show ?thesis by (simp add: form_written_refl)
  next
    case True
    with a obtain b where
      "delete_entry (selectbox (map row_id rws) (del_choice u)) s = Inr (b, s')"
      by (auto simp: delete_section_def Let_def split: sum.splits)
    from delete_entry_Inr [OF this] show ?thesis by (auto simp: form_written_def)
  qed
qed

lemma main_Inr:
  "main u s = Inr (ms, s3) \<Longrightarrow>
     \<exists>s0 m1 s1 rws m2 s2 m3. init_db s = Inr s0 \<and> add_form u s0 = Inr (m1, s1) \<and>
        view_all s1 = Inr rws \<and> update_form u rws s1 = Inr (m2, s2) \<and>
        delete_section u rws s2 = Inr (m3, s3)"
  by (auto simp: main_def split: sum.splits)

lemma form_written_main: "main u s = Inr (ms, s') \<Longrightarrow> form_written s s'"
proof -
  assume "main u s = Inr (ms, s')"
  from main_Inr [OF this] obtain s0 m1 s1 rws m2 s2 m3 where
    "init_db s = Inr s0" "add_form u s0 = Inr (m1, s1)"
    "update_form u rws s1 = Inr (m2, s2)" "delete_section u rws s2 = Inr (m3, s')"
    by blast
  then have "form_written s s0" "form_written s0 s1" "form_written s1 s2" "form_written s2 s'"
    by (simp_all add: form_written_init form_written_add form_written_update form_written_delete)
  then show ?thesis by (blast intro: form_written_trans)
qed

text \<open>
  Claim C10. When the row chosen in the update section has no age and the form is
  submitted with the age field left alone, the row is updated and afterwards has the age
  18. Every row that a run of \<open>main\<close> leaves in the store was there before the run or
  has an age, a number from 0 to 150: no form writes a row without an age.
\<close>

theorem null_age_becomes_18:
  "(rws \<noteq> [] \<and> get_entry (selectbox (map row_id rws) (edit_choice u)) s = Inr (Some r) \<and>
    age r = None \<and> edit_age u = None \<and> edit_submitted u \<longrightarrow>
      (\<exists>s' r'. update_form u rws s = Inr ([RecordUpdated], s') \<and>
         get_entry (selectbox (map row_id rws) (edit_choice u)) s' = Inr (Some r') \<and>
         age r' = Some 18)) \<and>
   (main u s = Inr (ms, s1) \<longrightarrow> form_written s s1)"
  using update_form_null_age [of rws u s r] form_written_main [of u s ms s1] by blast

theorem null_age_becomes_18_witness:
  "get_entry (selectbox (map row_id [carol, bob, alice]) 1)
       (Entries \<lparr>rows = [alice, bob, carol], seq = 3\<rparr>) = Inr (Some bob) \<and>
   age bob = None \<and>
   update_form (idle\<lparr>edit_choice := 1, edit_submitted := True\<rparr>) [carol, bob, alice]
       (Entries \<lparr>rows = [alice, bob, carol], seq = 3\<rparr>) =
     Inr ([RecordUpdated], Entries \<lparr>rows = [alice, bob\<lparr>age := Some 18\<rparr>, carol], seq = 3\<rparr>) \<and>
   get_entry 2 (Entries \<lparr>rows = [alice, bob\<lparr>age := Some 18\<rparr>, carol], seq = 3\<rparr>) =
     Inr (Some (bob\<lparr>age := Some 18\<rparr>)) \<and>
   main (idle\<lparr>edit_choice := 1, edit_submitted := True\<rparr>)
       (Entries \<lparr>rows = [alice, bob, carol], seq = 3\<rparr>) =
     Inr ([ShowRecords [carol, bob, alice], RecordUpdated],
          Entries \<lparr>rows = [alice, bob\<lparr>age := Some 18\<rparr>, carol], seq = 3\<rparr>) \<and>
   form_written (Entries \<lparr>rows = [alice, bob, carol], seq = 3\<rparr>)
     (Entries \<lparr>rows = [alice, bob\<lparr>age := Some 18\<rparr>, carol], seq = 3\<rparr>)"
  using null_age_becomes_18 [where rws = "[carol, bob, alice]"
      and u = "idle\<lparr>edit_choice := 1, edit_submitted := True\<rparr>"
      and s = "Entries \<lparr>rows = [alice, bob, carol], seq = 3\<rparr>" and r = bob
      and ms = "[ShowRecords [carol, bob, alice], RecordUpdated]"
      and ?s1.0 = "Entries \<lparr>rows = [alice, bob\<lparr>age := Some 18\<rparr>, carol], seq = 3\<rparr>"]
  by (simp add: idle_def alice_def bob_def carol_def MAX_ROWID_def in_int64_def
      main_def init_db_def add_form_def number_input_def view_all_def update_form_def
      delete_section_def selectbox_def get_entry_def update_entry_def text_input_def
      strip_def isspace_def form_written_def)


section \<open>Exceptions of the gateway in a run of the page\<close>

text \<open>In a world that does nothing the page on a shared file is the page above.\<close>

lemma add_form_quiet: "add_form_shared quiet u s = add_form u s"
  unfolding add_form_shared_def add_form_def quiet_def ..

lemma update_form_quiet: "update_form_shared quiet u rws s = update_form u rws s"
  unfolding update_form_shared_def update_form_def quiet_def ..

lemma delete_section_quiet: "delete_section_shared quiet u rws s = delete_section u rws s"
  unfolding delete_section_shared_def delete_section_def quiet_def ..

lemma main_quiet: "main_shared quiet u s = main u s"
  unfolding main_shared_def main_def add_form_quiet update_form_quiet delete_section_quiet
  unfolding quiet_def ..

lemma init_db_leaves_main: "init_db (w 0 s) = Inl e \<Longrightarrow> main_shared w u s = Inl e"
  by (simp add: main_shared_def)

lemma insert_entry_leaves_add_form:
  "add_submitted u \<Longrightarrow> add_name u \<noteq> [] \<Longrightarrow> add_email u \<noteq> [] \<Longrightarrow>
   number_input 0 150 18 (add_age u) = Inr ag \<Longrightarrow>
   insert_entry (strip (add_name u)) (strip (add_email u)) (Some ag) (strip (add_notes u))
     (w 1 s) = Inl e \<Longrightarrow>
   add_form_shared w u s = Inl e"
  by (simp add: add_form_shared_def)

lemma add_form_leaves_main:
  "init_db (w 0 s) = Inr s0 \<Longrightarrow> add_form_shared w u s0 = Inl e \<Longrightarrow> main_shared w u s = Inl e"
  by (simp add: main_shared_def)

lemma view_all_leaves_main:
  "init_db (w 0 s) = Inr s0 \<Longrightarrow> add_form_shared w u s0 = Inr (m1, s1) \<Longrightarrow>
   view_all (w 2 s1) = Inl e \<Longrightarrow> main_shared w u s = Inl e"
  by (simp add: main_shared_def)

lemma get_entry_leaves_update_form:
  "rws \<noteq> [] \<Longrightarrow> get_entry (selectbox (map row_id rws) (edit_choice u)) (w 3 s) = Inl e \<Longrightarrow>
     update_form_shared w u rws s = Inl e"
  by (simp add: update_form_shared_def Let_def)

lemma get_entry_none_update_form:
  "rws \<noteq> [] \<Longrightarrow> get_entry (selectbox (map row_id rws) (edit_choice u)) (w 3 s) = Inr None \<Longrightarrow>
     update_form_shared w u rws s = Inr ([RecordNotFound], w 3 s)"
  by (simp add: update_form_shared_def Let_def)

lemma update_entry_in_update_form:
  "rws \<noteq> [] \<Longrightarrow>
   get_entry (selectbox (map row_id rws) (edit_choice u)) (w 3 s) = Inr (Some r) \<Longrightarrow>
   number_input 0 150 (case age r of None \<Rightarrow> 18 | Some a \<Rightarrow> a) (edit_age u) = Inr ag \<Longrightarrow>
   edit_submitted u \<Longrightarrow>
   update_form_shared w u rws s =
     (case update_entry (selectbox (map row_id rws) (edit_choice u))
             (strip (text_input (name r) (edit_name u)))
             (strip (text_input (email r) (edit_email u))) (Some ag)
             (strip (text_input (case notes' r of None \<Rightarrow> [] | Some n \<Rightarrow> n) (edit_notes u)))
             (w 4 (w 3 s)) of
        Inl e \<Rightarrow> Inl e
      | Inr (ok, s') \<Rightarrow> Inr ([if ok then RecordUpdated else UpdateFailed], s'))"
  by (simp add: update_form_shared_def Let_def)

lemma update_form_leaves_main:
  "init_db (w 0 s) = Inr s0 \<Longrightarrow> add_form_shared w u s0 = Inr (m1, s1) \<Longrightarrow>
   view_all (w 2 s1) = Inr rws \<Longrightarrow> update_form_shared w u rws (w 2 s1) = Inl e \<Longrightarrow>
   main_shared w u s = Inl e"
  by (simp add: main_shared_def)

lemma delete_entry_in_delete_section:
  "rws \<noteq> [] \<Longrightarrow> del_clicked u \<Longrightarrow> del_confirm u \<Longrightarrow>
   delete_section_shared w u rws s =
     (case delete_entry (selectbox (map row_id rws) (del_choice u)) (w 5 s) of
        Inl e \<Rightarrow> Inl e
      | Inr (ok, s') \<Rightarrow> Inr ([if ok then RecordDeleted else DeleteFailed], s'))"
  by (simp add: delete_section_shared_def Let_def)

lemma delete_section_leaves_main:
  "init_db (w 0 s) = Inr s0 \<Longrightarrow> add_form_shared w u s0 = Inr (m1, s1) \<Longrightarrow>
   view_all (w 2 s1) = Inr rws \<Longrightarrow> update_form_shared w u rws (w 2 s1) = Inr (m2, s2) \<Longrightarrow>
   delete_section_shared w u rws s2 = Inl e \<Longrightarrow> main_shared w u s = Inl e"
  by (simp add: main_shared_def)

text \<open>
  Claim C5, as the code has it. No exception of the gateway is caught in \<^verbatim>\<open>main\<close>. In
  every world and for every user: when the call of \<open>init_db\<close>, \<open>insert_entry\<close>,
  \<open>view_all\<close>, \<open>get_entry\<close>, \<open>update_entry\<close> or \<open>delete_entry\<close> that a run makes raises,
  the calls before it having returned, the run ends with that exception. What the page
  turns into messages are the ordinary results: a row that \<open>get_entry\<close> does not find,
  and the false of \<open>update_entry\<close> and \<open>delete_entry\<close>. Whether the exception ends the
  process is for the host of the script to decide and is not said here.
\<close>

theorem storage_failures_leave_main:
  "(init_db (w 0 s) = Inl e \<longrightarrow> main_shared w u s = Inl e) \<and>
   (init_db (w 0 s) = Inr s0 \<and> add_submitted u \<and> add_name u \<noteq> [] \<and> add_email u \<noteq> [] \<and>
    number_input 0 150 18 (add_age u) = Inr ag \<and>
    insert_entry (strip (add_name u)) (strip (add_email u)) (Some ag) (strip (add_notes u))
      (w 1 s0) = Inl e \<longrightarrow> main_shared w u s = Inl e) \<and>
   (init_db (w 0 s) = Inr s0 \<and> add_form_shared w u s0 = Inr (m1, s1) \<and>
    view_all (w 2 s1) = Inl e \<longrightarrow> main_shared w u s = Inl e) \<and>
   (init_db (w 0 s) = Inr s0 \<and> add_form_shared w u s0 = Inr (m1, s1) \<and>
    view_all (w 2 s1) = Inr rws \<and> rws \<noteq> [] \<and>
    get_entry (selectbox (map row_id rws) (edit_choice u)) (w 3 (w 2 s1)) = Inl e \<longrightarrow>
      main_shared w u s = Inl e) \<and>
   (init_db (w 0 s) = Inr s0 \<and> add_form_shared w u s0 = Inr (m1, s1) \<and>
    view_all (w 2 s1) = Inr rws \<and> rws \<noteq> [] \<and>
    get_entry (selectbox (map row_id rws) (edit_choice u)) (w 3 (w 2 s1)) = Inr (Some r) \<and>
    number_input 0 150 (case age r of None \<Rightarrow> 18 | Some a \<Rightarrow> a) (edit_age u) = Inr ag' \<and>
    edit_submitted u \<and>
    update_entry (selectbox (map row_id rws) (edit_choice u))
      (strip (text_input (name r) (edit_name u)))
      (strip (text_input (email r) (edit_email u))) (Some ag')
      (strip (text_input (case notes' r of None \<Rightarrow> [] | Some n \<Rightarrow> n) (edit_notes u)))
      (w 4 (w 3 (w 2 s1))) = Inl e \<longrightarrow>
      main_shared w u s = Inl e) \<and>
   (init_db (w 0 s) = Inr s0 \<and> add_form_shared w u s0 = Inr (m1, s1) \<and>
    view_all (w 2 s1) = Inr rws \<and> rws \<noteq> [] \<and>
    update_form_shared w u rws (w 2 s1) = Inr (m2, s2) \<and> del_clicked u \<and> del_confirm u \<and>
    delete_entry (selectbox (map row_id rws) (del_choice u)) (w 5 s2) = Inl e \<longrightarrow>
      main_shared w u s = Inl e) \<and>
   (rws \<noteq> [] \<and>
    get_entry (selectbox (map row_id rws) (edit_choice u)) (w 3 s1) = Inr None \<longrightarrow>
      update_form_shared w u rws s1 = Inr ([RecordNotFound], w 3 s1)) \<and>
   (rws \<noteq> [] \<and>
    get_entry (selectbox (map row_id rws) (edit_choice u)) (w 3 s1) = Inr (Some r) \<and>
    number_input 0 150 (case age r of None \<Rightarrow> 18 | Some a \<Rightarrow> a) (edit_age u) = Inr ag' \<and>
    edit_submitted u \<and>
    update_entry (selectbox (map row_id rws) (edit_choice u))
      (strip (text_input (name r) (edit_name u)))
      (strip (text_input (email r) (edit_email u))) (Some ag')
      (strip (text_input (case notes' r of None \<Rightarrow> [] | Some n \<Rightarrow> n) (edit_notes u)))
      (w 4 (w 3 s1)) = Inr (False, s') \<longrightarrow>
      update_form_shared w u rws s1 = Inr ([UpdateFailed], s')) \<and>
   (rws \<noteq> [] \<and> del_clicked u \<and> del_confirm u \<and>
    delete_entry (selectbox (map row_id rws) (del_choice u)) (w 5 s2) = Inr (False, s') \<longrightarrow>
      delete_section_shared w u rws s2 = Inr ([DeleteFailed], s'))"
proof (intro conjI impI)
  assume "init_db (w 0 s) = Inl e"
  then show "main_shared w u s = Inl e" by (rule init_db_leaves_main)
next
  assume a: "init_db (w 0 s) = Inr s0 \<and> add_submitted u \<and> add_name u \<noteq> [] \<and>
    add_email u \<noteq> [] \<and> number_input 0 150 18 (add_age u) = Inr ag \<and>
    insert_entry (strip (add_name u)) (strip (add_email u)) (Some ag) (strip (add_notes u))
      (w 1 s0) = Inl e"
  then have "add_form_shared w u s0 = Inl e" by (simp add: insert_entry_leaves_add_form)
  with a show "main_shared w u s = Inl e" by (simp add: add_form_leaves_main)
next
  assume "init_db (w 0 s) = Inr s0 \<and> add_form_shared w u s0 = Inr (m1, s1) \<and>
    view_all (w 2 s1) = Inl e"
  then show "main_shared w u s = Inl e" by (simp add: view_all_leaves_main)
next
  assume a: "init_db (w 0 s) = Inr s0 \<and> add_form_shared w u s0 = Inr (m1, s1) \<and>
    view_all (w 2 s1) = Inr rws \<and> rws \<noteq> [] \<and>
    get_entry (selectbox (map row_id rws) (edit_choice u)) (w 3 (w 2 s1)) = Inl e"
  then have "update_form_shared w u rws (w 2 s1) = Inl e"
    by (simp add: get_entry_leaves_update_form)
  with a show "main_shared w u s = Inl e" by (simp add: update_form_leaves_main)
next
  assume a: "init_db (w 0 s) = Inr s0 \<and> add_form_shared w u s0 = Inr (m1, s1) \<and>
    view_all (w 2 s1) = Inr rws \<and> rws \<noteq> [] \<and>
    get_entry (selectbox (map row_id rws) (edit_choice u)) (w 3 (w 2 s1)) = Inr (Some r) \<and>
    number_input 0 150 (case age r of None \<Rightarrow> 18 | Some a \<Rightarrow> a) (edit_age u) = Inr ag' \<and>
    edit_submitted u \<and>
    update_entry (selectbox (map row_id rws) (edit_choice u))
      (strip (text_input (name r) (edit_name u)))
      (strip (text_input (email r) (edit_email u))) (Some ag')
      (strip (text_input (case notes' r of None \<Rightarrow> [] | Some n \<Rightarrow> n) (edit_notes u)))
      (w 4 (w 3 (w 2 s1))) = Inl e"
  then have "update_form_shared w u rws (w 2 s1) = Inl e"
    by (simp add: update_entry_in_update_form)
  with a show "main_shared w u s = Inl e" by (simp add: update_form_leaves_main)
next
  assume a: "init_db (w 0 s) = Inr s0 \<and> add_form_shared w u s0 = Inr (m1, s1) \<and>
    view_all (w 2 s1) = Inr rws \<and> rws \<noteq> [] \<and>
    update_form_shared w u rws (w 2 s1) = Inr (m2, s2) \<and> del_clicked u \<and> del_confirm u \<and>
    delete_entry (selectbox (map row_id rws) (del_choice u)) (w 5 s2) = Inl e"
  then have "delete_section_shared w u rws s2 = Inl e"
    by (simp add: delete_entry_in_delete_section)
  with a show "main_shared w u s = Inl e" by (simp add: delete_section_leaves_main)
next
  assume "rws \<noteq> [] \<and>
    get_entry (selectbox (map row_id rws) (edit_choice u)) (w 3 s1) = Inr None"
  then show "update_form_shared w u rws s1 = Inr ([RecordNotFound], w 3 s1)"
    by (simp add: get_entry_none_update_form)
next
  assume "rws \<noteq> [] \<and>
    get_entry (selectbox (map row_id rws) (edit_choice u)) (w 3 s1) = Inr (Some r) \<and>
    number_input 0 150 (case age r of None \<Rightarrow> 18 | Some a \<Rightarrow> a) (edit_age u) = Inr ag' \<and>
    edit_submitted u \<and>
    update_entry (selectbox (map row_id rws) (edit_choice u))
      (strip (text_input (name r) (edit_name u)))
      (strip (text_input (email r) (edit_email u))) (Some ag')
      (strip (text_input (case notes' r of None \<Rightarrow> [] | Some n \<Rightarrow> n) (edit_notes u)))
      (w 4 (w 3 s1)) = Inr (False, s')"
  then show "update_form_shared w u rws s1 = Inr ([UpdateFailed], s')"
    by (simp add: update_entry_in_update_form)
next
  assume "rws \<noteq> [] \<and> del_clicked u \<and> del_confirm u \<and>
    delete_entry (selectbox (map row_id rws) (del_choice u)) (w 5 s2) = Inr (False, s')"
  then show "delete_section_shared w u rws s2 = Inr ([DeleteFailed], s')"
    by (simp add: delete_entry_in_delete_section)
qed

text \<open>
  The runs of the witness, on a table of two rows: for each of the six calls, the file
  cannot be opened when the call comes, and the run ends with the exception; and another
  session has emptied the table before \<open>get_entry\<close>, \<open>update_entry\<close> or
  \<open>delete_entry\<close>, and the section shows its message.
\<close>

lemma sel_first: "selectbox (map row_id [bob, alice]) 0 = 2"
  by (simp add: selectbox_def bob_def)

lemma view_two_rows: "view_all (Entries two_rows) = Inr [bob, alice]"
  by (simp add: view_all_def two_rows_def alice_def bob_def)

lemma get_bob: "get_entry 2 (Entries two_rows) = Inr (Some bob)"
  by (simp add: get_entry_def two_rows_def alice_def bob_def in_int64_def MAX_ROWID_def)

lemma add_form_shared_idle: "add_form_shared w idle s = Inr ([], s)"
  by (simp add: add_form_shared_def idle_def number_input_def)

lemma add_form_shared_unsubmitted: "\<not> add_submitted u \<Longrightarrow> add_form_shared w u s = Inr ([], s)"
  by (simp add: add_form_shared_def number_input_def)

theorem storage_failures_leave_main_witness:
  "main_shared (unopenable_at 0) idle (Entries two_rows) = Inl UnableToOpen \<and>
   insert_entry ''Dave'' ''dave@x.com'' (Some 18) [] (unopenable_at 1 1 (Entries two_rows)) =
     Inl UnableToOpen \<and>
   main_shared (unopenable_at 1) dave (Entries two_rows) = Inl UnableToOpen \<and>
   view_all (unopenable_at 2 2 (Entries two_rows)) = Inl UnableToOpen \<and>
   main_shared (unopenable_at 2) idle (Entries two_rows) = Inl UnableToOpen \<and>
   get_entry 2 (unopenable_at 3 3 (Entries two_rows)) = Inl UnableToOpen \<and>
   main_shared (unopenable_at 3) idle (Entries two_rows) = Inl UnableToOpen \<and>
   update_entry 2 ''Bob'' ''bob@x.com'' (Some 18) [] (unopenable_at 4 4 (Entries two_rows)) =
     Inl UnableToOpen \<and>
   main_shared (unopenable_at 4) (idle\<lparr>edit_submitted := True\<rparr>) (Entries two_rows) =
     Inl UnableToOpen \<and>
   delete_entry 2 (unopenable_at 5 5 (Entries two_rows)) = Inl UnableToOpen \<and>
   main_shared (unopenable_at 5) (idle\<lparr>del_confirm := True, del_clicked := True\<rparr>)
       (Entries two_rows) = Inl UnableToOpen \<and>
   update_form_shared (emptied_at 3) idle [bob, alice] (Entries two_rows) =
     Inr ([RecordNotFound], Entries \<lparr>rows = [], seq = 2\<rparr>) \<and>
   update_form_shared (emptied_at 4) (idle\<lparr>edit_submitted := True\<rparr>) [bob, alice]
       (Entries two_rows) = Inr ([UpdateFailed], Entries \<lparr>rows = [], seq = 2\<rparr>) \<and>
   delete_section_shared (emptied_at 5) (idle\<lparr>del_confirm := True, del_clicked := True\<rparr>)
       [bob, alice] (Entries two_rows) = Inr ([DeleteFailed], Entries \<lparr>rows = [], seq = 2\<rparr>)"
proof -
  let ?S = "Entries two_rows"
  let ?E = "Entries \<lparr>rows = [], seq = 2\<rparr>"
  let ?ue = "idle\<lparr>edit_submitted := True\<rparr>"
  let ?ud = "idle\<lparr>del_confirm := True, del_clicked := True\<rparr>"
  have w0: "main_shared (unopenable_at 0) idle ?S = Inl UnableToOpen"
    using storage_failures_leave_main [where w = "unopenable_at 0" and s = ?S
        and e = UnableToOpen and u = idle]
    by (simp add: init_db_def unopenable_at_def)
  have h1: "insert_entry ''Dave'' ''dave@x.com'' (Some 18) [] (unopenable_at 1 1 ?S) =
      Inl UnableToOpen"
    by (simp add: insert_entry_def unopenable_at_def)
  have w1: "main_shared (unopenable_at 1) dave ?S = Inl UnableToOpen"
    using storage_failures_leave_main [where w = "unopenable_at 1" and s = ?S
        and e = UnableToOpen and u = dave and ?s0.0 = ?S and ag = 18] h1
    by (simp add: init_db_def unopenable_at_def dave_def idle_def number_input_def strip_def
        isspace_def)
  have h2: "view_all (unopenable_at 2 2 ?S) = Inl UnableToOpen"
    by (simp add: view_all_def unopenable_at_def)
  have w2: "main_shared (unopenable_at 2) idle ?S = Inl UnableToOpen"
    using storage_failures_leave_main [where w = "unopenable_at 2" and s = ?S
        and e = UnableToOpen and u = idle and ?s0.0 = ?S and ?m1.0 = "[]" and ?s1.0 = ?S] h2
    by (simp add: init_db_def add_form_shared_idle) (simp add: unopenable_at_def)
  have h3: "get_entry 2 (unopenable_at 3 3 ?S) = Inl UnableToOpen"
    by (simp add: get_entry_def unopenable_at_def)
  have w3: "main_shared (unopenable_at 3) idle ?S = Inl UnableToOpen"
    using storage_failures_leave_main [where w = "unopenable_at 3" and s = ?S
        and e = UnableToOpen and u = idle and ?s0.0 = ?S and ?m1.0 = "[]" and ?s1.0 = ?S
        and rws = "[bob, alice]"] h3 view_two_rows sel_first
    by (simp add: init_db_def add_form_shared_idle) (simp add: unopenable_at_def idle_def)
  have h4: "update_entry 2 ''Bob'' ''bob@x.com'' (Some 18) [] (unopenable_at 4 4 ?S) =
      Inl UnableToOpen"
    by (simp add: update_entry_def unopenable_at_def)
  have w4: "main_shared (unopenable_at 4) ?ue ?S = Inl UnableToOpen"
    using storage_failures_leave_main [where w = "unopenable_at 4" and s = ?S
        and e = UnableToOpen and u = ?ue and ?s0.0 = ?S and ?m1.0 = "[]" and ?s1.0 = ?S
        and rws = "[bob, alice]" and r = bob and ag' = 18] h4 view_two_rows sel_first get_bob
    by (simp add: init_db_def add_form_shared_unsubmitted idle_def)
      (simp add: unopenable_at_def bob_def number_input_def text_input_def strip_def isspace_def)
  have h5: "delete_entry 2 (unopenable_at 5 5 ?S) = Inl UnableToOpen"
    by (simp add: delete_entry_def unopenable_at_def)
  have u5: "update_form_shared (unopenable_at 5) ?ud [bob, alice] ?S = Inr ([], ?S)"
    using sel_first get_bob
    by (simp add: update_form_shared_def unopenable_at_def idle_def number_input_def bob_def)
  have w5: "main_shared (unopenable_at 5) ?ud ?S = Inl UnableToOpen"
    using storage_failures_leave_main [where w = "unopenable_at 5" and s = ?S
        and e = UnableToOpen and u = ?ud and ?s0.0 = ?S and ?m1.0 = "[]" and ?s1.0 = ?S
        and rws = "[bob, alice]" and ?m2.0 = "[]" and ?s2.0 = ?S] h5 view_two_rows sel_first u5
    by (simp add: init_db_def add_form_shared_unsubmitted idle_def) (simp add: unopenable_at_def)
  have e3: "emptied_at 3 3 ?S = ?E" "emptied_at 4 3 ?S = ?S" "emptied_at 4 4 ?S = ?E"
    "emptied_at 5 5 ?S = ?E"
    by (simp_all add: emptied_at_def two_rows_def)
  have gE: "get_entry 2 ?E = Inr None"
    by (simp add: get_entry_def in_int64_def MAX_ROWID_def)
  have uE: "update_entry 2 ''Bob'' ''bob@x.com'' (Some 18) [] ?E = Inr (False, ?E)"
    by (simp add: update_entry_def in_int64_def MAX_ROWID_def)
  have dE: "delete_entry 2 ?E = Inr (False, ?E)"
    by (simp add: delete_entry_def in_int64_def MAX_ROWID_def)
  have w6: "update_form_shared (emptied_at 3) idle [bob, alice] ?S = Inr ([RecordNotFound], ?E)"
    using storage_failures_leave_main [where w = "emptied_at 3" and u = idle
        and ?s1.0 = ?S and rws = "[bob, alice]"] sel_first gE e3
    by (simp add: idle_def)
  have w7: "update_form_shared (emptied_at 4) ?ue [bob, alice] ?S = Inr ([UpdateFailed], ?E)"
    using storage_failures_leave_main [where w = "emptied_at 4" and u = ?ue
        and ?s1.0 = ?S and rws = "[bob, alice]" and r = bob and ag' = 18 and s' = ?E]
      sel_first get_bob uE e3
    by (simp add: idle_def)
      (simp add: bob_def number_input_def text_input_def strip_def isspace_def)
  have w8: "delete_section_shared (emptied_at 5) ?ud [bob, alice] ?S = Inr ([DeleteFailed], ?E)"
    using storage_failures_leave_main [where w = "emptied_at 5" and u = ?ud
        and ?s2.0 = ?S and rws = "[bob, alice]" and s' = ?E] sel_first dE e3
    by (simp add: idle_def)
  from w0 h1 w1 h2 w2 h3 w3 h4 w4 h5 w5 w6 w7 w8 show ?thesis by blast
qed

text \<open>
  Three runs that end with an exception of the gateway: the file cannot be opened when
  \<open>view_all\<close> comes; the add form is submitted on a table whose counter has reached the
  largest row id; the file cannot be opened at all.
\<close>

theorem storage_failure_uncaught:
  "main_shared (unopenable_at 2) idle (Entries two_rows) = Inl UnableToOpen \<and>
   main dave (Entries full_table) = Inl DatabaseFull \<and>
   main idle Unopenable = Inl UnableToOpen"
  by (simp add: main_shared_def main_def init_db_def add_form_shared_def add_form_def dave_def
      idle_def full_table_def two_rows_def unopenable_at_def view_all_def
      number_input_def insert_entry_def new_rowid_def MAX_ROWID_def in_int64_def strip_def
      isspace_def alice_def)

end
